theory Spec2Isabelle
  imports Main "HOL-Library.Sublist"
begin

section \<open>Text and the regular-expression fragment used by the program\<close>

text \<open>
  The program (src/unnamed/part_000, TypeScript) edits two text files with
  \<^verbatim>\<open>String.prototype.replace\<close> and regular expressions built by \<^verbatim>\<open>new RegExp\<close> or
  written as literals, all with the \<^verbatim>\<open>m\<close> flag. Texts are modelled as \<^typ>\<open>string\<close>; a
  \<^typ>\<open>char\<close> stands for one code unit in the range U+0000 .. U+00FF.
\<close>

definition line_terminator :: "char \<Rightarrow> bool" where
  \<comment> \<open>ECMAScript LineTerminator (LF, CR; U+2028 and U+2029 lie outside \<^typ>\<open>char\<close>).\<close>
  "line_terminator c = (c = CHR 0x0A \<or> c = CHR 0x0D)"

definition white_space :: "char \<Rightarrow> bool" where
  \<comment> \<open>The class \<^verbatim>\<open>\s\<close>: TAB, LF, VT, FF, CR, SP, NBSP (the others lie outside \<^typ>\<open>char\<close>).\<close>
  "white_space c =
     (c = CHR 0x09 \<or> c = CHR 0x0A \<or> c = CHR 0x0B \<or> c = CHR 0x0C \<or> c = CHR 0x0D
      \<or> c = CHR 0x20 \<or> c = CHR 0xA0)"

definition syntax_character :: "char \<Rightarrow> bool" where
  \<comment> \<open>ECMAScript SyntaxCharacter: the regex metacharacters.\<close>
  "syntax_character c = (c \<in> set (CHR 0x5C # ''^$.*+?()[]{}|''))"

text \<open>
  The modelled fragment of the pattern language: single-character matchers (a literal,
  \<^verbatim>\<open>.\<close>, \<^verbatim>\<open>\s\<close>), each optionally under a greedy quantifier \<^verbatim>\<open>*\<close>, \<^verbatim>\<open>+\<close> or \<^verbatim>\<open>?\<close>, and the
  assertions \<^verbatim>\<open>^\<close> and \<^verbatim>\<open>$\<close> in multiline mode. It contains every pattern the program
  writes itself, and every pattern it builds from a profile name made of ordinary
  characters, \<^verbatim>\<open>.\<close>, greedy quantifiers, assertions and escaped metacharacters. For any
  other name the compilation answers \<open>Outside\<close> and the model makes no statement.
\<close>

datatype atom = Lit char | Dot | Ws

datatype node = One atom | Star atom | Plus atom | Opt atom | Bol | Eol

type_synonym regex = "node list"

fun atom_ok :: "atom \<Rightarrow> char \<Rightarrow> bool" where
  "atom_ok (Lit a) c = (a = c)"
| "atom_ok Dot c = (\<not> line_terminator c)"
| "atom_ok Ws c = white_space c"

subsection \<open>Compiling a pattern: \<^verbatim>\<open>new RegExp(pattern, 'm')\<close>\<close>

datatype token = TAtom atom | TStar | TPlus | TQuest | TBol | TEol | TOther

fun tokenize :: "string \<Rightarrow> token list" where
  "tokenize [] = []"
| "tokenize [c] =
     [if c = CHR ''^'' then TBol else if c = CHR ''$'' then TEol
      else if c = CHR ''.'' then TAtom Dot
      else if c = CHR ''*'' then TStar else if c = CHR ''+'' then TPlus
      else if c = CHR ''?'' then TQuest
      else if syntax_character c then TOther
      else TAtom (Lit c)]"
| "tokenize (c # e # cs) =
     (if c = CHR 0x5C then
        (if e = CHR ''s'' then TAtom Ws
         else if syntax_character e then TAtom (Lit e)
         else TOther) # tokenize cs
      else tokenize [c] @ tokenize (e # cs))"

datatype compiled = SyntaxErr | Outside | Compiled regex

definition cons_node :: "node \<Rightarrow> compiled \<Rightarrow> compiled" where
  "cons_node n r = (case r of Compiled ns \<Rightarrow> Compiled (n # ns) | other \<Rightarrow> other)"

fun build :: "token list \<Rightarrow> compiled" where
  "build [] = Compiled []"
| "build (TAtom a # TStar # TQuest # ts) = Outside"
| "build (TAtom a # TPlus # TQuest # ts) = Outside"
| "build (TAtom a # TQuest # TQuest # ts) = Outside"
| "build (TAtom a # TStar # ts) = cons_node (Star a) (build ts)"
| "build (TAtom a # TPlus # ts) = cons_node (Plus a) (build ts)"
| "build (TAtom a # TQuest # ts) = cons_node (Opt a) (build ts)"
| "build (TAtom a # ts) = cons_node (One a) (build ts)"
| "build (TBol # ts) = cons_node Bol (build ts)"
| "build (TEol # ts) = cons_node Eol (build ts)"
| "build (TStar # ts) = SyntaxErr"
| "build (TPlus # ts) = SyntaxErr"
| "build (TQuest # ts) = SyntaxErr"
| "build (TOther # ts) = Outside"

definition RegExp :: "string \<Rightarrow> compiled" where
  \<comment> \<open>\<^verbatim>\<open>SyntaxErr\<close>: the constructor throws (a quantifier with nothing to repeat).
      \<^verbatim>\<open>Outside\<close>: the pattern leaves the modelled fragment (groups, classes, braces,
      alternation, lazy quantifiers, other escapes); the model says nothing about it.\<close>
  "RegExp pattern = build (tokenize pattern)"

subsection \<open>Matching: backtracking, greedy, leftmost\<close>

fun matches :: "regex \<Rightarrow> char option \<Rightarrow> string \<Rightarrow> string option" where
  \<comment> \<open>\<open>matches re prev s\<close> matches \<open>re\<close> at the start of \<open>s\<close>, the character before
      \<open>s\<close> being \<open>prev\<close>; it returns the text after the match.\<close>
  "matches [] prev s = Some s"
| "matches (Bol # rs) prev s =
     (if (case prev of None \<Rightarrow> True | Some p \<Rightarrow> line_terminator p) then matches rs prev s
      else None)"
| "matches (Eol # rs) prev s =
     (if (case s of [] \<Rightarrow> True | c # _ \<Rightarrow> line_terminator c) then matches rs prev s
      else None)"
| "matches (One a # rs) prev [] = None"
| "matches (One a # rs) prev (c # cs) =
     (if atom_ok a c then matches rs (Some c) cs else None)"
| "matches (Star a # rs) prev [] = matches rs prev []"
| "matches (Star a # rs) prev (c # cs) =
     (if atom_ok a c then
        (case matches (Star a # rs) (Some c) cs of
           Some r \<Rightarrow> Some r
         | None \<Rightarrow> matches rs prev (c # cs))
      else matches rs prev (c # cs))"
| "matches (Plus a # rs) prev [] = None"
| "matches (Plus a # rs) prev (c # cs) =
     (if atom_ok a c then matches (Star a # rs) (Some c) cs else None)"
| "matches (Opt a # rs) prev [] = matches rs prev []"
| "matches (Opt a # rs) prev (c # cs) =
     (if atom_ok a c then
        (case matches rs (Some c) cs of
           Some r \<Rightarrow> Some r
         | None \<Rightarrow> matches rs prev (c # cs))
      else matches rs prev (c # cs))"

fun search :: "regex \<Rightarrow> string \<Rightarrow> string \<Rightarrow> (string \<times> string \<times> string) option" where
  \<comment> \<open>The first match at or after the current position: the text before it, the match,
      the text after it. \<open>passed\<close> is the text already passed, reversed.\<close>
  "search re passed s =
     (case matches re (case passed of [] \<Rightarrow> None | p # _ \<Rightarrow> Some p) s of
        Some rest \<Rightarrow> Some (rev passed, take (length s - length rest) s, rest)
      | None \<Rightarrow> (case s of [] \<Rightarrow> None | c # cs \<Rightarrow> search re (c # passed) cs))"

fun GetSubstitution :: "string \<Rightarrow> string \<Rightarrow> string \<Rightarrow> string \<Rightarrow> string" where
  \<comment> \<open>Expansion of the replacement text for a pattern without capture groups:
      \<^verbatim>\<open>$$\<close>, \<^verbatim>\<open>$&\<close>, \<^verbatim>\<open>$`\<close> and \<^verbatim>\<open>$'\<close> are special, every other character stands for itself.\<close>
  "GetSubstitution [] pre mt post = []"
| "GetSubstitution [c] pre mt post = [c]"
| "GetSubstitution (c # d # cs) pre mt post =
     (if c = CHR ''$'' then
        (if d = CHR ''$'' then CHR ''$'' # GetSubstitution cs pre mt post
         else if d = CHR ''&'' then mt @ GetSubstitution cs pre mt post
         else if d = CHR 0x60 then pre @ GetSubstitution cs pre mt post
         else if d = CHR 0x27 then post @ GetSubstitution cs pre mt post
         else c # GetSubstitution (d # cs) pre mt post)
      else c # GetSubstitution (d # cs) pre mt post)"

definition replace :: "string \<Rightarrow> regex \<Rightarrow> string \<Rightarrow> string" where
  \<comment> \<open>\<^verbatim>\<open>text.replace(re, replacement)\<close> for a regex without the \<^verbatim>\<open>g\<close> flag.\<close>
  "replace text re replacement =
     (case search re [] text of
        None \<Rightarrow> text
      | Some (pre, mt, post) \<Rightarrow> pre @ GetSubstitution replacement pre mt post @ post)"

fun match_all :: "regex \<Rightarrow> nat \<Rightarrow> string \<Rightarrow> string \<Rightarrow> string list" where
  \<comment> \<open>\<^verbatim>\<open>text.match(re)\<close> for a regex with the \<^verbatim>\<open>g\<close> flag: every match, left to right,
      the next search starting where the last match ended (one further on after an
      empty match). \<open>skip\<close> counts the characters still inside the last match.\<close>
  "match_all re skip passed [] =
     (if skip = 0 \<and> matches re (case passed of [] \<Rightarrow> None | p # _ \<Rightarrow> Some p) [] \<noteq> None
      then [[]] else [])"
| "match_all re skip passed (c # cs) =
     (if skip > 0 then match_all re (skip - 1) (c # passed) cs
      else
        (case matches re (case passed of [] \<Rightarrow> None | p # _ \<Rightarrow> Some p) (c # cs) of
           None \<Rightarrow> match_all re 0 (c # passed) cs
         | Some rest \<Rightarrow>
             (let n = length (c # cs) - length rest
              in take n (c # cs) # match_all re (n - 1) (c # passed) cs)))"

section \<open>The world the program runs in\<close>

datatype error =
    FsError               \<comment> \<open>\<^verbatim>\<open>fs.readFile\<close> or \<^verbatim>\<open>fs.writeFile\<close> rejects\<close>
  | RegExpSyntaxError     \<comment> \<open>\<^verbatim>\<open>new RegExp\<close> throws\<close>
  | OutsideFragment       \<comment> \<open>not an error of the program: the pattern is outside the modelled fragment\<close>
  | NoAccessKeyCreated    \<comment> \<open>\<^verbatim>\<open>throw new Error('no access key created')\<close>\<close>
  | IamError              \<comment> \<open>\<^verbatim>\<open>client.send\<close> rejects\<close>
  | IniError              \<comment> \<open>the provider returned by \<^verbatim>\<open>fromIni\<close> rejects\<close>

record creds =
  accessKeyId :: string
  secretAccessKey :: string

record loaded = creds +
  name :: string

record profile = loaded +
  createDate :: "nat option"

record key_metadata =
  AccessKeyId :: "string option"
  CreateDate :: "nat option"

datatype create_reply = CreateFails | CreateNoKey | CreateOk string string

datatype selection = Cancelled | Picked "string list"

datatype env_arg = EnvAbsent | EnvFlag bool | EnvPath string | EnvOther

record args =
  opt_profiles :: bool
  opt_output :: bool
  opt_env :: env_arg

datatype event =
    Intro
  | SpinnerStart bool
  | SpinnerStop nat bool
  | LoadProfile string
  | ListAccessKeys
  | CreateAccessKey
  | DeleteAccessKey string
  | ReadCredentials
  | WriteCredentials string
  | ReadEnv string
  | WriteEnv string string
  | LogError string "error option"
  | Cancel string
  | Outro string
  | Note string string

text \<open>
  Everything outside the program is a field of the world: the credentials file
  (\<open>None\<close> when it cannot be read), the env files by resolved path, the answers of the
  local profile lookup (\<^verbatim>\<open>fromIni\<close>), of IAM (list, create, delete) and of the interactive
  prompt, and the trace of the calls the program has issued, oldest first.
  A failed write leaves the file as it was.
\<close>

record world =
  cred_file :: "string option"
  cred_writable :: bool
  env_file :: "string \<Rightarrow> string option"
  env_writable :: "string \<Rightarrow> bool"
  path_resolve :: "string \<Rightarrow> string"
  from_ini :: "string \<Rightarrow> error + creds"
  remote_keys :: "error + key_metadata list option"
  create_reply :: "nat \<Rightarrow> create_reply"
  created :: nat
  delete_fails :: "string \<Rightarrow> bool"
  prompt_reply :: selection
  trace :: "event list"

definition emit :: "event list \<Rightarrow> world \<Rightarrow> world" where
  "emit es w = w\<lparr>trace := trace w @ es\<rparr>"

section \<open>The program\<close>

subsection \<open>IAM calls (lines 31-49)\<close>

definition listAccessKeys :: "world \<Rightarrow> (error + key_metadata list option) \<times> world" where
  "listAccessKeys w = (remote_keys w, emit [ListAccessKeys] w)"

definition createAccessKey :: "world \<Rightarrow> (error + string \<times> string) \<times> world" where
  "createAccessKey w =
     (let w' = emit [CreateAccessKey] (w\<lparr>created := Suc (created w)\<rparr>)
      in case create_reply w (created w) of
           CreateFails \<Rightarrow> (Inl IamError, w')
         | CreateNoKey \<Rightarrow> (Inl NoAccessKeyCreated, w')
         | CreateOk keyId keySecret \<Rightarrow> (Inr (keyId, keySecret), w'))"

definition deleteKey :: "string \<Rightarrow> world \<Rightarrow> (error + unit) \<times> world" where
  "deleteKey key w =
     (if delete_fails w key then Inl IamError else Inr (), emit [DeleteAccessKey key] w)"

subsection \<open>replaceCrendentials (lines 51-88)\<close>

definition credentials_pattern :: "string \<Rightarrow> string" where
  \<comment> \<open>The template literal of line 64, after JavaScript's string escapes:
      \<^verbatim>\<open>^\[NAME\]\s*.+\s*.+$\<close>.\<close>
  "credentials_pattern profileName =
     ''^'' @ [CHR 0x5C] @ ''['' @ profileName @ [CHR 0x5C] @ '']'' @ [CHR 0x5C] @ ''s*.+''
       @ [CHR 0x5C] @ ''s*.+$''"

definition newDefaultProfile :: "string \<Rightarrow> string \<Rightarrow> string \<Rightarrow> string" where
  "newDefaultProfile profileName keyId keySecret =
     ''['' @ profileName @ '']\<newline>aws_access_key_id='' @ keyId
       @ ''\<newline>aws_secret_access_key='' @ keySecret"

definition env_id_re :: regex where
  \<comment> \<open>\<^verbatim>\<open>/^AWS_ACCESS_KEY_ID=.*$/m\<close>\<close>
  "env_id_re = Bol # map (One \<circ> Lit) ''AWS_ACCESS_KEY_ID='' @ [Star Dot, Eol]"

definition env_secret_re :: regex where
  \<comment> \<open>\<^verbatim>\<open>/^AWS_SECRET_ACCESS_KEY=.*$/m\<close>\<close>
  "env_secret_re = Bol # map (One \<circ> Lit) ''AWS_SECRET_ACCESS_KEY='' @ [Star Dot, Eol]"

definition replaceEnv :: "string \<Rightarrow> string \<Rightarrow> string \<Rightarrow> world \<Rightarrow> world" where
  \<comment> \<open>Lines 70-86: the body of \<^verbatim>\<open>if (typeof env === 'string')\<close>, with its try/catch.\<close>
  "replaceEnv envPath keyId keySecret w =
     (let envFilePath = path_resolve w envPath;
          w1 = emit [ReadEnv envFilePath] w
      in case env_file w envFilePath of
           None \<Rightarrow> emit [LogError ''Failed updating env file'' (Some FsError)] w1
         | Some envFile0 \<Rightarrow>
             (let envFile1 = replace envFile0 env_id_re (''AWS_ACCESS_KEY_ID='' @ keyId);
                  envFile2 = replace envFile1 env_secret_re
                               (''AWS_SECRET_ACCESS_KEY='' @ keySecret)
              in if env_writable w envFilePath
                 then emit [WriteEnv envFilePath envFile2]
                        (w1\<lparr>env_file := (env_file w1)(envFilePath := Some envFile2)\<rparr>)
                 else emit [LogError ''Failed updating env file'' (Some FsError)] w1))"

definition replaceCrendentials ::
  "string \<Rightarrow> string \<Rightarrow> string \<Rightarrow> env_arg \<Rightarrow> world \<Rightarrow> (error + unit) \<times> world" where
  \<comment> \<open>The parameters \<^verbatim>\<open>accessKeyId\<close>, \<^verbatim>\<open>accessKeySecret\<close> and \<^verbatim>\<open>env\<close> are written
      \<open>keyId\<close>, \<open>keySecret\<close> and \<open>envArg\<close>.\<close>
  "replaceCrendentials profileName keyId keySecret envArg w =
     (let w1 = emit [ReadCredentials] w
      in case cred_file w of
           None \<Rightarrow> (Inl FsError, w1)
         | Some credentialsFile \<Rightarrow>
             (case RegExp (credentials_pattern profileName) of
                SyntaxErr \<Rightarrow> (Inl RegExpSyntaxError, w1)
              | Outside \<Rightarrow> (Inl OutsideFragment, w1)
              | Compiled re \<Rightarrow>
                  (let newFile = replace credentialsFile re
                                   (newDefaultProfile profileName keyId keySecret)
                   in if \<not> cred_writable w then (Inl FsError, w1)
                      else
                        (let w2 = emit [WriteCredentials newFile]
                                    (w1\<lparr>cred_file := Some newFile\<rparr>)
                         in (Inr (),
                             case envArg of
                               EnvPath envPath \<Rightarrow> replaceEnv envPath keyId keySecret w2
                             | _ \<Rightarrow> w2)))))"

subsection \<open>getAllCredentialProfiles (lines 90-98)\<close>

definition header_re :: regex where
  \<comment> \<open>\<^verbatim>\<open>/^\[.*\]$/gm\<close>\<close>
  "header_re = [Bol, One (Lit (CHR ''[''))] @ [Star Dot, One (Lit (CHR '']'')), Eol]"

definition slice_1_m1 :: "string \<Rightarrow> string" where
  \<comment> \<open>\<^verbatim>\<open>profile.slice(1, -1)\<close>\<close>
  "slice_1_m1 s = butlast (tl s)"

definition getAllCredentialProfiles :: "world \<Rightarrow> (error + string list) \<times> world" where
  "getAllCredentialProfiles w =
     (case cred_file w of
        None \<Rightarrow> Inl FsError
      | Some credentialsFile \<Rightarrow> Inr (map slice_1_m1 (match_all header_re 0 [] credentialsFile)),
      emit [ReadCredentials] w)"

subsection \<open>getAllProfiles (lines 100-124)\<close>

fun load_profiles :: "(string \<Rightarrow> error + creds) \<Rightarrow> string list \<Rightarrow> error + loaded list" where
  \<comment> \<open>The promises \<open>p\<close> of lines 101-108 under \<^verbatim>\<open>Promise.all\<close>: every profile is loaded,
      and one rejection rejects the whole (the model reports the first in list order).\<close>
  "load_profiles ini [] = Inr []"
| "load_profiles ini (p # ps) =
     (case ini p of
        Inl e \<Rightarrow> Inl e
      | Inr prof \<Rightarrow>
          (case load_profiles ini ps of
             Inl e \<Rightarrow> Inl e
           | Inr rest \<Rightarrow> Inr (creds.extend prof (loaded.fields p) # rest)))"

definition attach_date :: "key_metadata list option \<Rightarrow> loaded \<Rightarrow> profile" where
  \<comment> \<open>Lines 116-122: \<^verbatim>\<open>accessKeys?.find(...)\<close>, then \<^verbatim>\<open>foundKey?.CreateDate\<close>.\<close>
  "attach_date accessKeys prof =
     (let foundKey = (case accessKeys of
                        None \<Rightarrow> None
                      | Some keys \<Rightarrow> find (\<lambda>key. AccessKeyId key = Some (accessKeyId prof)) keys)
      in loaded.extend prof
           (profile.fields (case foundKey of None \<Rightarrow> None | Some key \<Rightarrow> CreateDate key)))"

definition getAllProfiles :: "string list \<Rightarrow> world \<Rightarrow> (error + profile list) \<times> world" where
  "getAllProfiles profiles w =
     (let w1 = emit (map LoadProfile profiles) w;
          (keys, w2) = listAccessKeys w1
      in (case keys of
            Inl e \<Rightarrow> Inl e
          | Inr accessKeys \<Rightarrow>
              (case load_profiles (from_ini w) profiles of
                 Inl e \<Rightarrow> Inl e
               | Inr allProfiles \<Rightarrow>
                   Inr (filter (\<lambda>key. createDate key \<noteq> None)
                          (map (attach_date accessKeys) allProfiles))),
          w2))"

subsection \<open>run (lines 126-244)\<close>

datatype outcome =
    Exited nat        \<comment> \<open>\<^verbatim>\<open>process.exit(n)\<close>\<close>
  | Returned          \<comment> \<open>\<^verbatim>\<open>run\<close> returns; the process ends with the default exit code 0\<close>
  | Rejected error    \<comment> \<open>an exception leaves \<^verbatim>\<open>run\<close>; the program does not handle it\<close>

type_synonym rotated = "string \<times> string \<times> string"   \<comment> \<open>name, key, secret\<close>

definition select_for_rotation :: "args \<Rightarrow> world \<Rightarrow> (outcome + profile list) \<times> world" where
  \<comment> \<open>Lines 144-183: from the candidate names to \<^verbatim>\<open>selectedForRotation\<close>, or an early end.\<close>
  "select_for_rotation a w =
     (case (if opt_profiles a then getAllCredentialProfiles w else (Inr [''default''], w)) of
        (Inl err, w1) \<Rightarrow> (Inl (Exited 1), emit [LogError [] (Some err)] w1)
      | (Inr profiles, w1) \<Rightarrow>
          (case getAllProfiles profiles w1 of
             (Inl err, w2) \<Rightarrow> (Inl (Rejected err), w2)
           | (Inr allProfiles, w2) \<Rightarrow>
               if allProfiles = [] then
                 (Inl (Exited 0), emit [Cancel ''No existing access keys''] w2)
               else
                 (case (if opt_profiles a then prompt_reply w2 else Picked [''default'']) of
                    Cancelled \<Rightarrow> (Inl (Exited 0), emit [Cancel ''Operation cancelled''] w2)
                  | Picked selectedProfiles \<Rightarrow>
                      (Inr (filter (\<lambda>profile. name profile \<in> set selectedProfiles)
                              allProfiles),
                       w2))))"

definition rotate_one :: "env_arg \<Rightarrow> nat \<Rightarrow> profile \<Rightarrow> world \<Rightarrow> (error + rotated) \<times> world" where
  \<comment> \<open>The body of the loop, lines 205-222, giving the entry pushed onto \<^verbatim>\<open>rotated\<close>;
      \<open>n\<close> is \<^verbatim>\<open>selectedForRotation.length\<close>. An exception of \<^verbatim>\<open>createAccessKey\<close> is not
      caught; one of \<^verbatim>\<open>replaceCrendentials\<close> is caught and logged.\<close>
  "rotate_one envArg n profile w =
     (case createAccessKey w of
        (Inl err, w1) \<Rightarrow> (Inl err, w1)
      | (Inr (keyId, keySecret), w1) \<Rightarrow>
          (let (r, w2) = replaceCrendentials (name profile) keyId keySecret
                           (if n = 1 then envArg else EnvFlag False) w1
           in (Inr (name profile, keyId, keySecret),
               case r of
                 Inl err \<Rightarrow> emit [LogError ''Failed replacing credentials'' (Some err)] w2
               | Inr _ \<Rightarrow> w2)))"

fun rotate_each ::
  "env_arg \<Rightarrow> nat \<Rightarrow> profile list \<Rightarrow> rotated list \<Rightarrow> world \<Rightarrow> (error + rotated list) \<times> world"
where
  \<comment> \<open>The loop of lines 204-223.\<close>
  "rotate_each envArg n [] rotated w = (Inr rotated, w)"
| "rotate_each envArg n (profile # rest) rotated w =
     (case rotate_one envArg n profile w of
        (Inl err, w1) \<Rightarrow> (Inl err, w1)
      | (Inr k, w1) \<Rightarrow> rotate_each envArg n rest (rotated @ [k]) w1)"

fun delete_each :: "string list \<Rightarrow> world \<Rightarrow> (error + unit) list \<times> world" where
  \<comment> \<open>Line 228-230: \<^verbatim>\<open>selectedForRotation.map(deleteKey ...)\<close> issues every call, in list
      order; the list holds how each promise settles.\<close>
  "delete_each [] w = ([], w)"
| "delete_each (key # keys) w =
     (let (r, w1) = deleteKey key w;
          (rs, w2) = delete_each keys w1
      in (r # rs, w2))"

definition delete_old :: "profile list \<Rightarrow> world \<Rightarrow> (error + unit) \<times> world" where
  \<comment> \<open>Lines 228-231: \<^verbatim>\<open>Promise.all\<close> over the issued calls; one rejection rejects the
      whole (the model reports the first in list order).\<close>
  "delete_old selectedForRotation w =
     (let (rs, w1) = delete_each (map accessKeyId selectedForRotation) w
      in (case find isl rs of Some (Inl err) \<Rightarrow> Inl err | _ \<Rightarrow> Inr (), w1))"

definition note_of :: "rotated \<Rightarrow> event" where
  "note_of k =
     (case k of (kname, key, secret) \<Rightarrow>
        Note (''AWS_ACCESS_KEY_ID='' @ key @ ''\<newline>AWS_SECRET_ACCESS_KEY='' @ secret) kname)"

definition rotate_selected :: "args \<Rightarrow> profile list \<Rightarrow> world \<Rightarrow> outcome \<times> world" where
  \<comment> \<open>Lines 185-243.\<close>
  "rotate_selected a selectedForRotation w =
     (if length selectedForRotation > 2 then
        (Returned, emit [LogError ''Cannot rotate more than 2 access keys'' None] w)
      else if selectedForRotation = [] then
        (Returned, emit [Outro ''Nothing to rotate''] w)
      else
        (let plural = length selectedForRotation > 1;
             w1 = emit [SpinnerStart plural] w
         in case rotate_each (opt_env a) (length selectedForRotation) selectedForRotation [] w1 of
              (Inl err, w2) \<Rightarrow> (Rejected err, w2)
            | (Inr rotated, w2) \<Rightarrow>
                (let w3 = emit [SpinnerStop (length selectedForRotation) plural] w2
                 in case delete_old selectedForRotation w3 of
                      (Inl err, w4) \<Rightarrow> (Rejected err, w4)
                    | (Inr _, w4) \<Rightarrow>
                        (Returned,
                         emit [Outro ''Complete'']
                           (if opt_output a then emit (map note_of rotated) w4 else w4)))))"

definition default_env :: "args \<Rightarrow> args" where
  \<comment> \<open>Lines 136-139: \<^verbatim>\<open>if (args.env === true) args.env = '.env'\<close>.\<close>
  "default_env a = (if opt_env a = EnvFlag True then a\<lparr>opt_env := EnvPath ''.env''\<rparr> else a)"

definition run :: "args \<Rightarrow> world \<Rightarrow> outcome \<times> world" where
  "run a0 w0 =
     (let a = default_env a0;
          w = emit [Intro] w0
      in case select_for_rotation a w of
           (Inl out, w1) \<Rightarrow> (out, w1)
         | (Inr selectedForRotation, w1) \<Rightarrow> rotate_selected a selectedForRotation w1)"


section \<open>Notions used in the statements\<close>

fun mutating :: "event \<Rightarrow> bool" where
  \<comment> \<open>The calls that change IAM or a file.\<close>
  "mutating CreateAccessKey = True"
| "mutating (DeleteAccessKey _) = True"
| "mutating (WriteCredentials _) = True"
| "mutating (WriteEnv _ _) = True"
| "mutating _ = False"


definition quiet_step :: "world \<Rightarrow> world \<Rightarrow> bool" where
  \<comment> \<open>From \<open>w\<close> to \<open>w'\<close> only non-mutating events were added; nothing else changed.\<close>
  "quiet_step w w' = (\<exists>es. w' = emit es w \<and> (\<forall>e \<in> set es. \<not> mutating e))"

definition literal_name :: "string \<Rightarrow> bool" where
  \<comment> \<open>A profile name without regex metacharacters.\<close>
  "literal_name n = (\<forall>c \<in> set n. \<not> syntax_character c)"

definition header :: "string \<Rightarrow> string" where
  \<comment> \<open>The section header of a profile, as text.\<close>
  "header n = ''['' @ n @ '']''"

definition tail_re :: regex where
  \<comment> \<open>\<^verbatim>\<open>\s*.+\s*.+$\<close>\<close>
  "tail_re = [Star Ws, Plus Dot, Star Ws, Plus Dot, Eol]"

definition name_re :: "string \<Rightarrow> regex" where
  \<comment> \<open>The pattern of line 64 with the name taken literally.\<close>
  "name_re n = Bol # map (One \<circ> Lit) (header n) @ tail_re"

fun has_header_line :: "string \<Rightarrow> bool \<Rightarrow> string \<Rightarrow> bool" where
  \<comment> \<open>Some line of the text starts with \<open>hdr\<close>; \<open>bol\<close> says whether the text starts a line.\<close>
  "has_header_line hdr bol [] = (bol \<and> prefix hdr [])"
| "has_header_line hdr bol (c # cs) =
     ((bol \<and> prefix hdr (c # cs)) \<or> has_header_line hdr (line_terminator c) cs)"

definition rotation_of_one :: "event list \<Rightarrow> bool" where
  \<comment> \<open>The events of one pass through the loop body: the key is created, the credentials
      file is read, then either the failure is logged or the file is written and, once at
      most, the env file is read and then written or its failure logged.\<close>
  "rotation_of_one es =
     (\<exists>c env. es = [CreateAccessKey, ReadCredentials] @ c @ env \<and>
        ((\<exists>err. c = [LogError ''Failed replacing credentials'' (Some err)]) \<and> env = []
         \<or> (\<exists>f. c = [WriteCredentials f]) \<and>
           (env = [] \<or> (\<exists>p t. env = [ReadEnv p, WriteEnv p t])
            \<or> (\<exists>p. env = [ReadEnv p, LogError ''Failed updating env file'' (Some FsError)]))))"

subsection \<open>Concrete worlds\<close>

definition three_profiles :: world where
  "three_profiles =
     \<lparr>cred_file = Some ''[a]\<newline>[b]\<newline>[c]'', cred_writable = True,
      env_file = (\<lambda>_. None), env_writable = (\<lambda>_. True), path_resolve = (\<lambda>p. p),
      from_ini = (\<lambda>n. Inr \<lparr>accessKeyId = ''K'' @ n, secretAccessKey = ''S''\<rparr>),
      remote_keys = Inr (Some [\<lparr>AccessKeyId = Some ''Ka'', CreateDate = Some 1\<rparr>,
                               \<lparr>AccessKeyId = Some ''Kb'', CreateDate = Some 2\<rparr>,
                               \<lparr>AccessKeyId = Some ''Kc'', CreateDate = Some 3\<rparr>]),
      create_reply = (\<lambda>_. CreateOk ''KNEW'' ''SNEW''), created = 0,
      delete_fails = (\<lambda>_. False), prompt_reply = Picked [''a'', ''b'', ''c''], trace = []\<rparr>"

definition with_profiles :: args where
  "with_profiles = \<lparr>opt_profiles = True, opt_output = False, opt_env = EnvAbsent\<rparr>"

definition default_file :: string where
  "default_file = ''[default]\<newline>aws_access_key_id=AKIAOLD\<newline>aws_secret_access_key=SECOLD''"

definition default_world :: world where
  "default_world =
     \<lparr>cred_file = Some default_file, cred_writable = True,
      env_file = (\<lambda>_. None), env_writable = (\<lambda>_. True), path_resolve = (\<lambda>p. p),
      from_ini = (\<lambda>n. if n = ''default'' then Inr \<lparr>accessKeyId = ''AKIAOLD'', secretAccessKey = ''SECOLD''\<rparr> else Inl IniError),
      remote_keys = Inr (Some [\<lparr>AccessKeyId = Some ''AKIAOLD'', CreateDate = Some 1\<rparr>]),
      create_reply = (\<lambda>_. CreateOk ''AKIANEW'' ''SECNEW''), created = 0,
      delete_fails = (\<lambda>_. False), prompt_reply = Cancelled, trace = []\<rparr>"


definition default_profile :: profile where
  "default_profile = \<lparr>accessKeyId = ''AKIAOLD'', secretAccessKey = ''SECOLD'', name = ''default'', createDate = Some 1\<rparr>"

definition stale_world :: world where
  "stale_world =
     default_world\<lparr>from_ini := (\<lambda>n.
        if n = ''default'' then Inr \<lparr>accessKeyId = ''AKIAOLD'', secretAccessKey = ''SECOLD''\<rparr>
        else if n = ''stale'' then Inr \<lparr>accessKeyId = ''AKIAGONE'', secretAccessKey = ''SECGONE''\<rparr>
        else Inl IniError)\<rparr>"

definition with_env :: args where
  "with_env = \<lparr>opt_profiles = False, opt_output = False, opt_env = EnvFlag True\<rparr>"

definition two_file :: string where
  "two_file = ''[a**]\<newline>k=1\<newline>s=2\<newline>[b]\<newline>k=3\<newline>s=4''"

definition two_world :: world where
  "two_world =
     \<lparr>cred_file = Some two_file, cred_writable = True,
      env_file = (\<lambda>_. None), env_writable = (\<lambda>_. True), path_resolve = (\<lambda>p. p),
      from_ini = (\<lambda>n. if n = ''a**'' then Inr \<lparr>accessKeyId = ''K1'', secretAccessKey = ''S1''\<rparr>
                       else if n = ''b'' then Inr \<lparr>accessKeyId = ''K2'', secretAccessKey = ''S2''\<rparr>
                       else Inl IniError),
      remote_keys = Inr (Some [\<lparr>AccessKeyId = Some ''K1'', CreateDate = Some 1\<rparr>,
                               \<lparr>AccessKeyId = Some ''K2'', CreateDate = Some 2\<rparr>]),
      create_reply = (\<lambda>n. if n = 0 then CreateOk ''N1'' ''T1'' else CreateOk ''N2'' ''T2''),
      created = 0, delete_fails = (\<lambda>_. False), prompt_reply = Picked [''a**'', ''b''],
      trace = []\<rparr>"

definition star_profile :: profile where
  "star_profile = \<lparr>accessKeyId = ''K1'', secretAccessKey = ''S1'', name = ''a**'', createDate = Some 1\<rparr>"

definition b_profile :: profile where
  "b_profile = \<lparr>accessKeyId = ''K2'', secretAccessKey = ''S2'', name = ''b'', createDate = Some 2\<rparr>"

definition dot_file :: string where
  "dot_file = ''[axb]\<newline>aws_access_key_id=AKIA1\<newline>aws_secret_access_key=SEC1\<newline>[a.b]\<newline>aws_access_key_id=AKIA2\<newline>aws_secret_access_key=SEC2''"

definition dot_world :: world where
  "dot_world = default_world\<lparr>cred_file := Some dot_file\<rparr>"

definition dot_re :: regex where
  "dot_re = [Bol, One (Lit CHR ''[''), One (Lit CHR ''a''), One Dot, One (Lit CHR ''b''),
             One (Lit CHR '']''), Star Ws, Plus Dot, Star Ws, Plus Dot, Eol]"

section \<open>Basic facts about the world\<close>

lemma emit_fields [simp]:
  "cred_file (emit es w) = cred_file w"
  "cred_writable (emit es w) = cred_writable w"
  "env_file (emit es w) = env_file w"
  "env_writable (emit es w) = env_writable w"
  "path_resolve (emit es w) = path_resolve w"
  "from_ini (emit es w) = from_ini w"
  "remote_keys (emit es w) = remote_keys w"
  "create_reply (emit es w) = create_reply w"
  "created (emit es w) = created w"
  "delete_fails (emit es w) = delete_fails w"
  "prompt_reply (emit es w) = prompt_reply w"
  "trace (emit es w) = trace w @ es"
  by (simp_all add: emit_def)

lemma emit_emit [simp]: "emit es (emit es' w) = emit (es' @ es) w"
  by (simp add: emit_def)

lemma emit_Nil [simp]: "emit [] w = w"
  by (simp add: emit_def)

text \<open>The regex literals of the program compile to the regexes written out in the model.\<close>

lemma RegExp_header_re: "RegExp (''^'' @ [CHR 0x5C] @ ''[.*'' @ [CHR 0x5C] @ '']$'') = Compiled header_re"
  by (simp add: RegExp_def syntax_character_def cons_node_def header_re_def)

lemma RegExp_env_id_re: "RegExp ''^AWS_ACCESS_KEY_ID=.*$'' = Compiled env_id_re"
  by (simp add: RegExp_def syntax_character_def cons_node_def env_id_re_def)

lemma RegExp_env_secret_re: "RegExp ''^AWS_SECRET_ACCESS_KEY=.*$'' = Compiled env_secret_re"
  by (simp add: RegExp_def syntax_character_def cons_node_def env_secret_re_def)

lemma getAllCredentialProfiles_world:
  "snd (getAllCredentialProfiles w) = emit [ReadCredentials] w"
  by (simp add: getAllCredentialProfiles_def)

lemma getAllProfiles_world:
  "snd (getAllProfiles ps w) = emit (map LoadProfile ps @ [ListAccessKeys]) w"
  by (simp add: getAllProfiles_def listAccessKeys_def Let_def)

lemma quiet_step_emit: "(\<forall>e \<in> set es. \<not> mutating e) \<Longrightarrow> quiet_step w (emit es w)"
  unfolding quiet_step_def by blast

lemma quiet_step_refl: "quiet_step w w"
  using quiet_step_emit [of "[]" w] by simp

lemma quiet_step_trans: "quiet_step w w1 \<Longrightarrow> quiet_step w1 w2 \<Longrightarrow> quiet_step w w2"
  unfolding quiet_step_def
proof (elim exE conjE)
  fix es es'
  assume "w1 = emit es w" "w2 = emit es' w1"
    and q: "\<forall>e \<in> set es. \<not> mutating e" "\<forall>e \<in> set es'. \<not> mutating e"
  then have "w2 = emit (es @ es') w" by simp
  moreover have "\<forall>e \<in> set (es @ es'). \<not> mutating e" using q by auto
  ultimately show "\<exists>es. w2 = emit es w \<and> (\<forall>e \<in> set es. \<not> mutating e)" by blast
qed

lemma getAllCredentialProfiles_quiet: "quiet_step w (snd (getAllCredentialProfiles w))"
  by (simp add: getAllCredentialProfiles_world quiet_step_emit)

lemma getAllProfiles_quiet: "quiet_step w (snd (getAllProfiles ps w))"
  by (simp add: getAllProfiles_world quiet_step_emit)

lemma select_for_rotation_quiet: "quiet_step w (snd (select_for_rotation a w))"
proof -
  define r where "r = (if opt_profiles a then getAllCredentialProfiles w else (Inr [''default''], w))"
  have q1: "quiet_step w (snd r)"
    by (simp add: r_def getAllCredentialProfiles_quiet quiet_step_refl)
  show ?thesis
  proof (cases "fst r")
    case (Inl err)
    then have "snd (select_for_rotation a w) = emit [LogError [] (Some err)] (snd r)"
      unfolding select_for_rotation_def r_def [symmetric] by (cases r) simp
    then show ?thesis
      using quiet_step_trans [OF q1 quiet_step_emit [of "[LogError [] (Some err)]" "snd r"]] by simp
  next
    case (Inr ps)
    define g where "g = getAllProfiles ps (snd r)"
    have q2: "quiet_step w (snd g)"
      unfolding g_def by (rule quiet_step_trans [OF q1 getAllProfiles_quiet])
    obtain rw where r: "r = (Inr ps, rw)" using Inr by (cases r) simp
    obtain q gw where g: "g = (q, gw)" by (cases g)
    have sel: "select_for_rotation a w =
      (case q of
         Inl err \<Rightarrow> (Inl (Rejected err), gw)
       | Inr allProfiles \<Rightarrow>
           if allProfiles = [] then (Inl (Exited 0), emit [Cancel ''No existing access keys''] gw)
           else (case (if opt_profiles a then prompt_reply gw else Picked [''default'']) of
                   Cancelled \<Rightarrow> (Inl (Exited 0), emit [Cancel ''Operation cancelled''] gw)
                 | Picked selectedProfiles \<Rightarrow>
                     (Inr (filter (\<lambda>profile. name profile \<in> set selectedProfiles) allProfiles), gw)))"
      unfolding select_for_rotation_def r_def [symmetric] r using g [unfolded g_def r]
      by simp
    have "snd (select_for_rotation a w) = snd g
      \<or> snd (select_for_rotation a w) = emit [Cancel ''No existing access keys''] (snd g)
      \<or> snd (select_for_rotation a w) = emit [Cancel ''Operation cancelled''] (snd g)"
      unfolding sel g
      by (cases q; cases "(if opt_profiles a then prompt_reply gw else Picked [''default''])") simp_all
    moreover have "quiet_step w (emit [Cancel m] (snd g))" for m
      using quiet_step_trans [OF q2 quiet_step_emit [of "[Cancel m]" "snd g"]] by simp
    ultimately show ?thesis using q2 by auto
  qed
qed


lemma delete_each_eq:
  "delete_each keys w =
     (map (\<lambda>key. if delete_fails w key then Inl IamError else Inr ()) keys,
      emit (map DeleteAccessKey keys) w)"
proof (induction keys arbitrary: w)
  case Nil
  then show ?case by simp
next
  case (Cons key keys)
  have "deleteKey key w =
      (if delete_fails w key then Inl IamError else Inr (), emit [DeleteAccessKey key] w)"
    by (simp add: deleteKey_def)
  then show ?case
    using Cons.IH [of "emit [DeleteAccessKey key] w"] by simp
qed

lemma find_failed_delete:
  "find isl (map (\<lambda>key. if fails key then Inl IamError else Inr ()) keys) =
     (if \<exists>key \<in> set keys. fails key then Some (Inl IamError) else None)"
  by (induction keys) auto

lemma delete_old_eq:
  "delete_old selectedForRotation w =
     (if \<exists>profile \<in> set selectedForRotation. delete_fails w (accessKeyId profile)
      then Inl IamError else Inr (),
      emit (map (\<lambda>profile. DeleteAccessKey (accessKeyId profile)) selectedForRotation) w)"
  by (simp add: delete_old_def delete_each_eq find_failed_delete comp_def)

lemma opt_profiles_default_env [simp]: "opt_profiles (default_env a) = opt_profiles a"
  by (simp add: default_env_def)

lemma opt_output_default_env [simp]: "opt_output (default_env a) = opt_output a"
  by (simp add: default_env_def)

lemma run_unfold:
  "select_for_rotation (default_env a) (emit [Intro] w) = (Inr sel, w1) \<Longrightarrow>
   run a w = rotate_selected (default_env a) sel w1"
  by (simp add: run_def Let_def)


section \<open>The loop over the selected profiles\<close>

lemma replaceCrendentials_result_indep:
  "cred_file w' = cred_file w \<Longrightarrow> cred_writable w' = cred_writable w \<Longrightarrow>
   fst (replaceCrendentials n i s env' w') = fst (replaceCrendentials n i s env w)"
  by (simp add: replaceCrendentials_def Let_def split: option.splits compiled.splits)

lemma replaceCrendentials_fail_world:
  "fst (replaceCrendentials n i s env w) = Inl err \<Longrightarrow>
   snd (replaceCrendentials n i s env w) = emit [ReadCredentials] w"
  by (simp add: replaceCrendentials_def Let_def split: option.splits compiled.splits if_splits)

lemma replaceEnv_shape:
  "\<exists>rp es e. replaceEnv p i s w = emit (ReadEnv rp # es) (w\<lparr>env_file := e\<rparr>) \<and>
     ((\<exists>t. es = [WriteEnv rp t]) \<or> es = [LogError ''Failed updating env file'' (Some FsError)])"
proof -
  let ?rp = "path_resolve w p"
  let ?err = "[LogError ''Failed updating env file'' (Some FsError)]"
  have same: "w\<lparr>env_file := env_file w\<rparr> = w" by simp
  show ?thesis
  proof (cases "env_file w ?rp")
    case None
    then have "replaceEnv p i s w = emit (ReadEnv ?rp # ?err) (w\<lparr>env_file := env_file w\<rparr>)"
      by (simp add: replaceEnv_def Let_def)
    then show ?thesis by blast
  next
    case (Some t0)
    show ?thesis
    proof (cases "env_writable w ?rp")
      case True
      define t where "t = replace (replace t0 env_id_re (''AWS_ACCESS_KEY_ID='' @ i)) env_secret_re
                               (''AWS_SECRET_ACCESS_KEY='' @ s)"
      have "replaceEnv p i s w =
          emit (ReadEnv ?rp # [WriteEnv ?rp t]) (w\<lparr>env_file := (env_file w)(?rp := Some t)\<rparr>)"
        using Some True by (simp add: replaceEnv_def Let_def emit_def t_def)
      then show ?thesis by blast
    next
      case False
      then have "replaceEnv p i s w = emit (ReadEnv ?rp # ?err) (w\<lparr>env_file := env_file w\<rparr>)"
        using Some by (simp add: replaceEnv_def Let_def)
      then show ?thesis by blast
    qed
  qed
qed

lemma replaceCrendentials_ok_world:
  assumes "fst (replaceCrendentials n i s env w) = Inr u"
  shows "\<exists>f re. cred_file w = Some f \<and> RegExp (credentials_pattern n) = Compiled re \<and> cred_writable w \<and>
     snd (replaceCrendentials n i s env w) =
       (case env of EnvPath p \<Rightarrow> replaceEnv p i s | _ \<Rightarrow> (\<lambda>w. w))
         (emit [ReadCredentials, WriteCredentials (replace f re (newDefaultProfile n i s))]
            (w\<lparr>cred_file := Some (replace f re (newDefaultProfile n i s))\<rparr>))"
  using assms
  by (simp add: replaceCrendentials_def Let_def emit_def split: option.splits compiled.splits if_splits env_arg.splits)



lemma rotate_one_Inl:
  assumes "fst (rotate_one env n p w) = Inl err"
  shows "snd (rotate_one env n p w) = emit [CreateAccessKey] (w\<lparr>created := Suc (created w)\<rparr>)"
  using assms
  by (cases "create_reply w (created w)")
     (simp_all add: rotate_one_def createAccessKey_def Let_def split: prod.splits)

lemma rotate_one_Inr:
  assumes "fst (rotate_one env n p w) = Inr k"
  shows "\<exists>i s. create_reply w (created w) = CreateOk i s \<and> k = (name p, i, s)"
  using assms
  by (cases "create_reply w (created w)")
     (simp_all add: rotate_one_def createAccessKey_def Let_def split: prod.splits)

lemma rotate_one_replace_fails:
  assumes c: "create_reply w (created w) = CreateOk i s"
    and f: "fst (replaceCrendentials (name p) i s env0 w) = Inl err"
  shows "rotate_one env n p w =
     (Inr (name p, i, s),
      emit [CreateAccessKey, ReadCredentials, LogError ''Failed replacing credentials'' (Some err)]
        (w\<lparr>created := Suc (created w)\<rparr>))"
proof -
  let ?w1 = "emit [CreateAccessKey] (w\<lparr>created := Suc (created w)\<rparr>)"
  let ?e = "if n = 1 then env else EnvFlag False"
  have f1: "fst (replaceCrendentials (name p) i s ?e ?w1) = Inl err"
    using f replaceCrendentials_result_indep [of ?w1 w "name p" i s ?e env0] by simp
  then have "replaceCrendentials (name p) i s ?e ?w1 = (Inl err, emit [ReadCredentials] ?w1)"
    using replaceCrendentials_fail_world [OF f1] by (cases "replaceCrendentials (name p) i s ?e ?w1") simp
  then show ?thesis
    using c by (simp add: rotate_one_def createAccessKey_def Let_def)
qed

lemma rotate_one_replace_ok:
  assumes c: "create_reply w (created w) = CreateOk i s"
    and f: "fst (replaceCrendentials (name p) i s env0 w) = Inr u"
  shows "\<exists>f re. cred_file w = Some f \<and> RegExp (credentials_pattern (name p)) = Compiled re \<and>
     cred_writable w \<and>
     rotate_one env n p w =
     (Inr (name p, i, s),
      (case (if n = 1 then env else EnvFlag False) of
         EnvPath path \<Rightarrow> replaceEnv path i s | _ \<Rightarrow> (\<lambda>w. w))
        (emit [CreateAccessKey, ReadCredentials,
               WriteCredentials (replace f re (newDefaultProfile (name p) i s))]
           (w\<lparr>created := Suc (created w),
               cred_file := Some (replace f re (newDefaultProfile (name p) i s))\<rparr>)))"
proof -
  let ?w1 = "emit [CreateAccessKey] (w\<lparr>created := Suc (created w)\<rparr>)"
  let ?e = "if n = 1 then env else EnvFlag False"
  have f1: "fst (replaceCrendentials (name p) i s ?e ?w1) = Inr u"
    using f replaceCrendentials_result_indep [of ?w1 w "name p" i s ?e env0] by simp
  from replaceCrendentials_ok_world [OF f1] obtain f re where
    fr: "cred_file w = Some f" "RegExp (credentials_pattern (name p)) = Compiled re" "cred_writable w"
    and w2: "snd (replaceCrendentials (name p) i s ?e ?w1) =
       (case ?e of EnvPath p' \<Rightarrow> replaceEnv p' i s | _ \<Rightarrow> (\<lambda>w. w))
         (emit [ReadCredentials, WriteCredentials (replace f re (newDefaultProfile (name p) i s))]
            (?w1\<lparr>cred_file := Some (replace f re (newDefaultProfile (name p) i s))\<rparr>))"
    by auto
  have eq: "emit [ReadCredentials, WriteCredentials x] (?w1\<lparr>cred_file := Some x\<rparr>) =
     emit [CreateAccessKey, ReadCredentials, WriteCredentials x]
       (w\<lparr>created := Suc (created w), cred_file := Some x\<rparr>)" for x
    by (simp add: emit_def)
  have "rotate_one env n p w =
     (Inr (name p, i, s), snd (replaceCrendentials (name p) i s ?e ?w1))"
    using c f1 by (cases "replaceCrendentials (name p) i s ?e ?w1")
      (simp add: rotate_one_def createAccessKey_def Let_def)
  then show ?thesis using fr w2 eq by simp
qed


lemma rotate_one_shape:
  assumes "fst (rotate_one env n p w) = Inr k"
  shows "\<exists>es f e. snd (rotate_one env n p w) =
       emit es (w\<lparr>created := Suc (created w), cred_file := f, env_file := e\<rparr>) \<and>
     rotation_of_one es \<and> (n \<noteq> 1 \<longrightarrow> (\<forall>rp. ReadEnv rp \<notin> set es))"
proof -
  from rotate_one_Inr [OF assms] obtain i s where
    c: "create_reply w (created w) = CreateOk i s" by blast
  let ?w0 = "w\<lparr>created := Suc (created w)\<rparr>"
  show ?thesis
  proof (cases "fst (replaceCrendentials (name p) i s env w)")
    case (Inl err)
    let ?es = "[CreateAccessKey, ReadCredentials, LogError ''Failed replacing credentials'' (Some err)]"
    have "snd (rotate_one env n p w) =
        emit ?es (w\<lparr>created := Suc (created w), cred_file := cred_file w, env_file := env_file w\<rparr>)"
      by (simp add: rotate_one_replace_fails [OF c Inl])
    moreover have "rotation_of_one ?es"
      unfolding rotation_of_one_def by (intro exI [of _ "[LogError ''Failed replacing credentials'' (Some err)]"] exI [of _ "[]"]) simp
    moreover have "\<forall>rp. ReadEnv rp \<notin> set ?es" by simp
    ultimately show ?thesis by blast
  next
    case (Inr u)
    from rotate_one_replace_ok [OF c Inr, of env n] obtain f re where
      r: "rotate_one env n p w =
        (Inr (name p, i, s),
         (case (if n = 1 then env else EnvFlag False) of
            EnvPath path \<Rightarrow> replaceEnv path i s | _ \<Rightarrow> (\<lambda>w. w))
           (emit [CreateAccessKey, ReadCredentials,
                  WriteCredentials (replace f re (newDefaultProfile (name p) i s))]
              (w\<lparr>created := Suc (created w),
                  cred_file := Some (replace f re (newDefaultProfile (name p) i s))\<rparr>)))"
      by blast
    define x where "x = replace f re (newDefaultProfile (name p) i s)"
    let ?base = "[CreateAccessKey, ReadCredentials, WriteCredentials x]"
    let ?w2 = "emit ?base (w\<lparr>created := Suc (created w), cred_file := Some x\<rparr>)"
    show ?thesis
    proof (cases "\<exists>path. n = 1 \<and> env = EnvPath path")
      case True
      then obtain path where path: "n = 1" "env = EnvPath path" by blast
      from replaceEnv_shape [of path i s ?w2] obtain rp es e where
        re: "replaceEnv path i s ?w2 = emit (ReadEnv rp # es) (?w2\<lparr>env_file := e\<rparr>)"
        and es: "(\<exists>t. es = [WriteEnv rp t]) \<or> es = [LogError ''Failed updating env file'' (Some FsError)]"
        by blast
      have "snd (rotate_one env n p w) =
          emit (?base @ ReadEnv rp # es)
            (w\<lparr>created := Suc (created w), cred_file := Some x, env_file := e\<rparr>)"
        using r path re by (simp add: x_def [symmetric] emit_def)
      moreover have "rotation_of_one (?base @ ReadEnv rp # es)"
        unfolding rotation_of_one_def
        using es by (intro exI [of _ "[WriteCredentials x]"] exI [of _ "ReadEnv rp # es"]) auto
      ultimately show ?thesis using path by blast
    next
      case False
      then have "snd (rotate_one env n p w) =
          emit ?base (w\<lparr>created := Suc (created w), cred_file := Some x, env_file := env_file w\<rparr>)"
        using r by (auto simp: x_def [symmetric] split: env_arg.splits)
      moreover have "rotation_of_one ?base"
        unfolding rotation_of_one_def
        by (intro exI [of _ "[WriteCredentials x]"] exI [of _ "[]"]) simp
      moreover have "\<forall>rp. ReadEnv rp \<notin> set ?base" by simp
      ultimately show ?thesis by blast
    qed
  qed
qed



lemma replaceCrendentials_succeeds:
  "cred_file w = Some f \<Longrightarrow> cred_writable w \<Longrightarrow> RegExp (credentials_pattern n) = Compiled re \<Longrightarrow>
   fst (replaceCrendentials n i s env w) = Inr ()"
  by (simp add: replaceCrendentials_def Let_def)

lemma replaceEnv_fails:
  "env_file w (path_resolve w p) = None \<or> \<not> env_writable w (path_resolve w p) \<Longrightarrow>
   replaceEnv p i s w =
     emit [ReadEnv (path_resolve w p), LogError ''Failed updating env file'' (Some FsError)] w"
  by (auto simp: replaceEnv_def Let_def split: option.splits)

lemma selected_world:
  assumes "select_for_rotation a (emit [Intro] w) = (Inr sel, w1)"
  shows "\<exists>es. w1 = emit (Intro # es) w \<and> (\<forall>e \<in> set es. \<not> mutating e)"
proof -
  have "quiet_step (emit [Intro] w) w1"
    using select_for_rotation_quiet [of "emit [Intro] w" a] assms by simp
  then show ?thesis unfolding quiet_step_def by auto
qed

lemma replaceCrendentials_result_readable:
  "(cred_file w' = None \<longleftrightarrow> cred_file w = None) \<Longrightarrow> cred_writable w' = cred_writable w \<Longrightarrow>
   fst (replaceCrendentials n i s env' w') = fst (replaceCrendentials n i s env w)"
  by (cases "cred_file w"; cases "cred_file w'")
     (simp_all add: replaceCrendentials_def Let_def split: compiled.splits)

lemma rotate_one_of_several:
  assumes c: "create_reply w (created w) = CreateOk i s" and n: "n \<noteq> 1"
  shows "\<exists>es f. rotate_one env n p w =
       (Inr (name p, i, s),
        emit (CreateAccessKey # ReadCredentials # es)
          (w\<lparr>created := Suc (created w), cred_file := f\<rparr>)) \<and>
     (f = None \<longleftrightarrow> cred_file w = None) \<and>
     (\<forall>err. fst (replaceCrendentials (name p) i s (EnvFlag False) w) = Inl err \<longrightarrow>
        es = [LogError ''Failed replacing credentials'' (Some err)]) \<and>
     (fst (replaceCrendentials (name p) i s (EnvFlag False) w) = Inr () \<longrightarrow>
        (\<exists>x. es = [WriteCredentials x]))"
proof (cases "fst (replaceCrendentials (name p) i s (EnvFlag False) w)")
  case (Inl err)
  have "rotate_one env n p w =
     (Inr (name p, i, s),
      emit (CreateAccessKey # ReadCredentials # [LogError ''Failed replacing credentials'' (Some err)])
        (w\<lparr>created := Suc (created w), cred_file := cred_file w\<rparr>))"
    by (simp add: rotate_one_replace_fails [OF c Inl])
  then show ?thesis using Inl
    by (intro exI [of _ "[LogError ''Failed replacing credentials'' (Some err)]"]
          exI [of _ "cred_file w"]) simp
next
  case (Inr u)
  from rotate_one_replace_ok [OF c Inr, of env n] n obtain f re where
    r: "rotate_one env n p w =
     (Inr (name p, i, s),
      emit (CreateAccessKey # ReadCredentials #
            [WriteCredentials (replace f re (newDefaultProfile (name p) i s))])
        (w\<lparr>created := Suc (created w),
            cred_file := Some (replace f re (newDefaultProfile (name p) i s))\<rparr>))"
    and f: "cred_file w = Some f"
    by auto
  show ?thesis using r f Inr
    by (intro exI [of _ "[WriteCredentials (replace f re (newDefaultProfile (name p) i s))]"]
          exI [of _ "Some (replace f re (newDefaultProfile (name p) i s))"]) simp
qed

section \<open>A run on the default profile, evaluated\<close>

lemma RegExp_default:
  "RegExp (credentials_pattern ''default'') =
     Compiled
       [Bol, One (Lit CHR ''[''), One (Lit CHR ''d''), One (Lit CHR ''e''), One (Lit CHR ''f''),
        One (Lit CHR ''a''), One (Lit CHR ''u''), One (Lit CHR ''l''), One (Lit CHR ''t''),
        One (Lit CHR '']''), Star Ws, Plus Dot, Star Ws, Plus Dot, Eol]"
  by (simp add: RegExp_def credentials_pattern_def syntax_character_def cons_node_def)

lemma replace_default:
  "replace default_file [Bol, One (Lit CHR ''[''), One (Lit CHR ''d''), One (Lit CHR ''e''), One (Lit CHR ''f''),
        One (Lit CHR ''a''), One (Lit CHR ''u''), One (Lit CHR ''l''), One (Lit CHR ''t''),
        One (Lit CHR '']''), Star Ws, Plus Dot, Star Ws, Plus Dot, Eol]
     (newDefaultProfile ''default'' ''AKIANEW'' ''SECNEW'') =
   ''[default]\<newline>aws_access_key_id=AKIANEW\<newline>aws_secret_access_key=SECNEW''"
  by (simp add: replace_def default_file_def newDefaultProfile_def line_terminator_def white_space_def)

lemma default_selected:
  "select_for_rotation (default_env a) (emit [Intro] default_world) =
     (Inr [default_profile], emit [Intro, LoadProfile ''default'', ListAccessKeys] default_world)"
  if "\<not> opt_profiles a"
  using that
  by (simp add: select_for_rotation_def getAllProfiles_def listAccessKeys_def default_world_def
      default_profile_def attach_date_def creds.extend_def loaded.extend_def loaded.fields_def
      profile.fields_def emit_def)


section \<open>Selections of no profile or of more than two (C4)\<close>

text \<open>
  C4. When \<^verbatim>\<open>selectedForRotation\<close> has more than two elements or none, \<^verbatim>\<open>run\<close> returns
  after logging the error message (more than two) or \<^verbatim>\<open>Nothing to rotate\<close> (none), and up to
  then it has issued no mutating call: no key creation, no write of the credentials file or
  of an env file, no key deletion. The world differs from the initial one by non-mutating
  trace events only.
\<close>

theorem run_aborts_without_mutation:
  assumes sel: "select_for_rotation (default_env a) (emit [Intro] w) = (Inr sel, w1)"
    and size: "length sel > 2 \<or> length sel = 0"
  shows "fst (run a w) = Returned \<and>
    (\<exists>es. snd (run a w) = emit es w \<and> (\<forall>e \<in> set es. \<not> mutating e) \<and>
       last es = (if length sel > 2 then LogError ''Cannot rotate more than 2 access keys'' None
                  else Outro ''Nothing to rotate''))"
proof -
  let ?m = "if length sel > 2 then LogError ''Cannot rotate more than 2 access keys'' None
            else Outro ''Nothing to rotate''"
  have r: "run a w = (Returned, emit [?m] w1)"
    using size by (auto simp: run_unfold [OF sel] rotate_selected_def)
  have "quiet_step (emit [Intro] w) w1"
    using select_for_rotation_quiet [of "emit [Intro] w" "default_env a"] sel by simp
  then obtain es where es: "w1 = emit ([Intro] @ es) w" "\<forall>e \<in> set es. \<not> mutating e"
    unfolding quiet_step_def by auto
  have "snd (run a w) = emit (Intro # es @ [?m]) w"
    by (simp add: r es(1))
  moreover have "\<forall>e \<in> set (Intro # es @ [?m]). \<not> mutating e"
    using es(2) by auto
  moreover have "last (Intro # es @ [?m]) = ?m" by simp
  ultimately show ?thesis using r by (metis fst_conv)
qed

lemma three_headers: "match_all header_re 0 [] ''[a]\<newline>[b]\<newline>[c]'' = [''[a]'', ''[b]'', ''[c]'']"
  by (simp add: header_re_def line_terminator_def)

lemma three_selected:
  "\<exists>sel w1. select_for_rotation (default_env with_profiles) (emit [Intro] three_profiles) = (Inr sel, w1) \<and> length sel = 3"
  by (simp add: select_for_rotation_def getAllCredentialProfiles_def getAllProfiles_def three_headers
      listAccessKeys_def three_profiles_def with_profiles_def default_env_def attach_date_def slice_1_m1_def
       creds.extend_def loaded.extend_def loaded.fields_def profile.fields_def del: match_all.simps)

theorem run_aborts_without_mutation_witness:
  "fst (run with_profiles three_profiles) = Returned \<and>
   (\<exists>es. snd (run with_profiles three_profiles) = emit es three_profiles \<and>
      (\<forall>e \<in> set es. \<not> mutating e) \<and>
      last es = LogError ''Cannot rotate more than 2 access keys'' None)"
proof -
  obtain sel w1 where
    sel: "select_for_rotation (default_env with_profiles) (emit [Intro] three_profiles) = (Inr sel, w1)"
    and len: "length sel = 3"
    using three_selected by blast
  from run_aborts_without_mutation [OF sel] len show ?thesis by simp
qed

section \<open>Exit codes (C9)\<close>

lemma rotate_selected_rotates:
  assumes "sel \<noteq> []" "length sel \<le> 2"
  shows "rotate_selected a sel w =
     (case rotate_each (opt_env a) (length sel) sel [] (emit [SpinnerStart (length sel > 1)] w) of
        (Inl err, w2) \<Rightarrow> (Rejected err, w2)
      | (Inr rotated, w2) \<Rightarrow>
          (if \<exists>profile \<in> set sel. delete_fails w2 (accessKeyId profile)
           then (Rejected IamError,
                 emit (SpinnerStop (length sel) (length sel > 1) #
                       map (\<lambda>profile. DeleteAccessKey (accessKeyId profile)) sel) w2)
           else (Returned,
                 emit (SpinnerStop (length sel) (length sel > 1) #
                       map (\<lambda>profile. DeleteAccessKey (accessKeyId profile)) sel @
                       (if opt_output a then map note_of rotated else []) @
                       [Outro ''Complete'']) w2)))"
  using assms
  by (simp add: rotate_selected_def delete_old_eq Let_def split: prod.splits sum.splits)







section \<open>The order of the calls in a successful run (C3)\<close>



section \<open>Profiles without a remote key are dropped (C6)\<close>

lemma load_profiles_Inr:
  "load_profiles ini names = Inr ls \<Longrightarrow>
   \<forall>l \<in> set ls. name l \<in> set names \<and> (\<exists>c. ini (name l) = Inr c \<and> accessKeyId c = accessKeyId l)"
proof (induction names arbitrary: ls)
  case Nil
  then show ?case by simp
next
  case (Cons n ns)
  from Cons.prems obtain c rest where
    c: "ini n = Inr c" and rest: "load_profiles ini ns = Inr rest"
    and ls: "ls = creds.extend c (loaded.fields n) # rest"
    by (auto split: sum.splits)
  have "name (creds.extend c (loaded.fields n)) = n"
    "accessKeyId (creds.extend c (loaded.fields n)) = accessKeyId c"
    by (simp_all add: creds.extend_def loaded.fields_def)
  then show ?case using Cons.IH [OF rest] c ls by auto
qed

lemma attach_date_fields:
  "name (attach_date ks l) = name l"
  "accessKeyId (attach_date ks l) = accessKeyId l"
  "createDate (attach_date ks l) =
     (case (case ks of None \<Rightarrow> None
            | Some keys \<Rightarrow> find (\<lambda>key. AccessKeyId key = Some (accessKeyId l)) keys) of
        None \<Rightarrow> None | Some key \<Rightarrow> CreateDate key)"
  by (simp_all add: attach_date_def loaded.extend_def profile.fields_def Let_def)

text \<open>
  C6. Every profile in the result of \<^verbatim>\<open>getAllProfiles\<close> has a locally configured access key
  id that equals the id of a key in the remote list, and carries the creation date of that
  key (the first one with this id, whose date is defined); it stems from one of the given
  names. Hence a name whose local access key id matches no remote key is not in the result.
\<close>

theorem getAllProfiles_matches_remote:
  assumes "getAllProfiles profiles w = (Inr ps, w')"
  shows "(\<forall>p \<in> set ps. \<exists>keys key.
            remote_keys w = Inr (Some keys) \<and>
            find (\<lambda>k. AccessKeyId k = Some (accessKeyId p)) keys = Some key \<and>
            createDate p = CreateDate key \<and> CreateDate key \<noteq> None \<and>
            name p \<in> set profiles \<and>
            (\<exists>c. from_ini w (name p) = Inr c \<and> accessKeyId c = accessKeyId p)) \<and>
         (\<forall>n c. from_ini w n = Inr c \<longrightarrow>
            (\<forall>keys. remote_keys w = Inr (Some keys) \<longrightarrow>
               Some (accessKeyId c) \<notin> AccessKeyId ` set keys) \<longrightarrow>
            n \<notin> name ` set ps)"
proof -
  from assms obtain accessKeys allProfiles where
    rk: "remote_keys w = Inr accessKeys"
    and lp: "load_profiles (from_ini w) profiles = Inr allProfiles"
    and ps: "ps = filter (\<lambda>key. createDate key \<noteq> None) (map (attach_date accessKeys) allProfiles)"
    by (auto simp: getAllProfiles_def listAccessKeys_def Let_def split: sum.splits)
  have first: "\<exists>keys key.
            remote_keys w = Inr (Some keys) \<and>
            find (\<lambda>k. AccessKeyId k = Some (accessKeyId p)) keys = Some key \<and>
            createDate p = CreateDate key \<and> CreateDate key \<noteq> None \<and>
            name p \<in> set profiles \<and>
            (\<exists>c. from_ini w (name p) = Inr c \<and> accessKeyId c = accessKeyId p)"
    if p: "p \<in> set ps" for p
  proof -
    from p ps obtain l where l: "l \<in> set allProfiles" and pl: "p = attach_date accessKeys l"
      and d: "createDate p \<noteq> None" by auto
    from load_profiles_Inr [OF lp] l obtain c where
      c: "name l \<in> set profiles" "from_ini w (name l) = Inr c" "accessKeyId c = accessKeyId l"
      by blast
    from d pl obtain keys key where
      k: "accessKeys = Some keys"
        "find (\<lambda>key. AccessKeyId key = Some (accessKeyId l)) keys = Some key"
        "createDate p = CreateDate key"
      by (auto simp: attach_date_fields split: option.splits)
    show ?thesis
      using rk k c d pl by (auto simp: attach_date_fields)
  qed
  have second: "n \<notin> name ` set ps"
    if c: "from_ini w n = Inr c"
      and no: "\<forall>keys. remote_keys w = Inr (Some keys) \<longrightarrow>
                 Some (accessKeyId c) \<notin> AccessKeyId ` set keys" for n c
  proof
    assume "n \<in> name ` set ps"
    then obtain p where p: "p \<in> set ps" "name p = n" by auto
    from first [OF p(1)] obtain keys key where
      k: "remote_keys w = Inr (Some keys)"
        "find (\<lambda>k. AccessKeyId k = Some (accessKeyId p)) keys = Some key"
      and c': "\<exists>c. from_ini w (name p) = Inr c \<and> accessKeyId c = accessKeyId p"
      by blast
    from c' c p(2) have eq: "accessKeyId c = accessKeyId p" by auto
    from k(2) have "key \<in> set keys" "AccessKeyId key = Some (accessKeyId p)"
      by (auto simp: find_Some_iff)
    then have "Some (accessKeyId c) \<in> AccessKeyId ` set keys"
      using eq by force
    then show False using no k(1) by blast
  qed
  show ?thesis using first second by blast
qed

lemma stale_profiles:
  "getAllProfiles [''default'', ''stale''] stale_world =
     (Inr [default_profile],
      emit [LoadProfile ''default'', LoadProfile ''stale'', ListAccessKeys] stale_world)"
  by (simp add: getAllProfiles_def listAccessKeys_def stale_world_def default_world_def
      default_profile_def attach_date_def creds.extend_def loaded.extend_def loaded.fields_def
      profile.fields_def emit_def)

theorem getAllProfiles_matches_remote_witness:
  "fst (getAllProfiles [''default'', ''stale''] stale_world) = Inr [default_profile] \<and>
   from_ini stale_world ''stale'' = Inr \<lparr>accessKeyId = ''AKIAGONE'', secretAccessKey = ''SECGONE''\<rparr> \<and>
   ''stale'' \<notin> name ` set [default_profile] \<and>
   (\<exists>keys key. remote_keys stale_world = Inr (Some keys) \<and>
      find (\<lambda>k. AccessKeyId k = Some (accessKeyId default_profile)) keys = Some key \<and>
      createDate default_profile = CreateDate key)"
proof -
  have ini: "from_ini stale_world ''stale'' =
      Inr \<lparr>accessKeyId = ''AKIAGONE'', secretAccessKey = ''SECGONE''\<rparr>"
    by (simp add: stale_world_def)
  have no: "\<forall>keys. remote_keys stale_world = Inr (Some keys) \<longrightarrow>
      Some (accessKeyId \<lparr>accessKeyId = ''AKIAGONE'', secretAccessKey = ''SECGONE''\<rparr>)
        \<notin> AccessKeyId ` set keys"
    by (simp add: stale_world_def default_world_def)
  from getAllProfiles_matches_remote [OF stale_profiles] ini no show ?thesis
    by (simp add: stale_profiles) blast
qed

section \<open>A failing env file does not stop the rotation (C7)\<close>

text \<open>
  C7. One profile is selected, the env option is a path, the key is created and the
  credentials file is replaced. When the env file then cannot be read, or cannot be written,
  the failure is caught and logged and nothing more: the run goes on to delete the old key,
  to report and to end with \<^verbatim>\<open>Complete\<close>; the credentials file keeps the replacement and
  no env file changes.
\<close>

theorem env_failure_is_not_fatal:
  assumes sel: "select_for_rotation (default_env a) (emit [Intro] w) = (Inr [p], w1)"
    and env: "opt_env (default_env a) = EnvPath path"
    and create: "create_reply w (created w) = CreateOk i s"
    and cred: "cred_file w = Some f" "cred_writable w"
      "RegExp (credentials_pattern (name p)) = Compiled re"
    and envfail: "env_file w (path_resolve w path) = None \<or> \<not> env_writable w (path_resolve w path)"
    and del: "\<not> delete_fails w (accessKeyId p)"
  shows "run a w =
     (Returned,
      emit ([SpinnerStart False, CreateAccessKey, ReadCredentials,
             WriteCredentials (replace f re (newDefaultProfile (name p) i s)),
             ReadEnv (path_resolve w path),
             LogError ''Failed updating env file'' (Some FsError),
             SpinnerStop 1 False, DeleteAccessKey (accessKeyId p)] @
            (if opt_output a then [note_of (name p, i, s)] else []) @ [Outro ''Complete''])
        (w1\<lparr>created := Suc (created w),
            cred_file := Some (replace f re (newDefaultProfile (name p) i s))\<rparr>))"
proof -
  from selected_world [OF sel] obtain es where w1: "w1 = emit (Intro # es) w" by blast
  define ws where "ws = emit [SpinnerStart False] w1"
  define x where "x = replace f re (newDefaultProfile (name p) i s)"
  have c: "create_reply ws (created ws) = CreateOk i s"
    using create by (simp add: ws_def w1)
  have ok: "fst (replaceCrendentials (name p) i s (EnvPath path) ws) = Inr ()"
    by (rule replaceCrendentials_succeeds [of ws f _ re]) (simp_all add: ws_def w1 cred)
  from rotate_one_replace_ok [OF c ok, of "EnvPath path" 1] cred
  have one: "rotate_one (EnvPath path) 1 p ws =
     (Inr (name p, i, s),
      replaceEnv path i s
        (emit [CreateAccessKey, ReadCredentials, WriteCredentials x]
           (ws\<lparr>created := Suc (created ws), cred_file := Some x\<rparr>)))"
    by (simp add: ws_def w1 x_def)
  let ?w2 = "emit [CreateAccessKey, ReadCredentials, WriteCredentials x]
           (ws\<lparr>created := Suc (created ws), cred_file := Some x\<rparr>)"
  have "env_file ?w2 (path_resolve ?w2 path) = None \<or> \<not> env_writable ?w2 (path_resolve ?w2 path)"
    using envfail by (simp add: ws_def w1)
  from replaceEnv_fails [OF this, of i s]
  have one': "rotate_one (EnvPath path) 1 p ws =
     (Inr (name p, i, s),
      emit [CreateAccessKey, ReadCredentials, WriteCredentials x, ReadEnv (path_resolve w path),
            LogError ''Failed updating env file'' (Some FsError)]
        (ws\<lparr>created := Suc (created ws), cred_file := Some x\<rparr>))"
    using one by (simp add: ws_def w1)
  have "run a w = rotate_selected (default_env a) [p] w1"
    by (rule run_unfold [OF sel])
  also have "\<dots> = (Returned,
      emit ([SpinnerStart False, CreateAccessKey, ReadCredentials, WriteCredentials x,
             ReadEnv (path_resolve w path),
             LogError ''Failed updating env file'' (Some FsError),
             SpinnerStop 1 False, DeleteAccessKey (accessKeyId p)] @
            (if opt_output a then [note_of (name p, i, s)] else []) @ [Outro ''Complete''])
        (w1\<lparr>created := Suc (created w), cred_file := Some x\<rparr>))"
    using one' del env
    by (simp add: rotate_selected_rotates ws_def [symmetric]) (simp add: ws_def w1 emit_def)
  finally show ?thesis by (simp add: x_def)
qed

theorem env_failure_is_not_fatal_witness:
  "run with_env default_world =
     (Returned,
      emit [Intro, LoadProfile ''default'', ListAccessKeys, SpinnerStart False, CreateAccessKey,
            ReadCredentials,
            WriteCredentials ''[default]\<newline>aws_access_key_id=AKIANEW\<newline>aws_secret_access_key=SECNEW'',
            ReadEnv ''.env'', LogError ''Failed updating env file'' (Some FsError),
            SpinnerStop 1 False, DeleteAccessKey ''AKIAOLD'', Outro ''Complete'']
        (default_world\<lparr>created := 1,
           cred_file := Some ''[default]\<newline>aws_access_key_id=AKIANEW\<newline>aws_secret_access_key=SECNEW''\<rparr>))"
proof -
  have s: "select_for_rotation (default_env with_env) (emit [Intro] default_world) =
     (Inr [default_profile], emit [Intro, LoadProfile ''default'', ListAccessKeys] default_world)"
    by (rule default_selected) (simp add: with_env_def)
  have env: "opt_env (default_env with_env) = EnvPath ''.env''"
    by (simp add: default_env_def with_env_def)
  have create: "create_reply default_world (created default_world) = CreateOk ''AKIANEW'' ''SECNEW''"
    by (simp add: default_world_def)
  have cred: "cred_file default_world = Some default_file" "cred_writable default_world"
    by (simp_all add: default_world_def)
  have re: "RegExp (credentials_pattern (name default_profile)) =
     Compiled
       [Bol, One (Lit CHR ''[''), One (Lit CHR ''d''), One (Lit CHR ''e''), One (Lit CHR ''f''),
        One (Lit CHR ''a''), One (Lit CHR ''u''), One (Lit CHR ''l''), One (Lit CHR ''t''),
        One (Lit CHR '']''), Star Ws, Plus Dot, Star Ws, Plus Dot, Eol]"
    using RegExp_default by (simp add: default_profile_def)
  have envfail: "env_file default_world (path_resolve default_world ''.env'') = None
      \<or> \<not> env_writable default_world (path_resolve default_world ''.env'')"
    by (simp add: default_world_def)
  have del: "\<not> delete_fails default_world (accessKeyId default_profile)"
    by (simp add: default_world_def)
  have nm: "name default_profile = ''default''" "accessKeyId default_profile = ''AKIAOLD''"
    by (simp_all add: default_profile_def)
  have out: "\<not> opt_output with_env" by (simp add: with_env_def)
  have pr: "path_resolve default_world ''.env'' = ''.env''" "created default_world = 0"
    by (simp_all add: default_world_def)
  from env_failure_is_not_fatal [OF s env create cred re envfail del]
  show ?thesis
    by (simp add: nm replace_default out pr emit_def)
qed

section \<open>A failed replacement does not stop the loop (C8)\<close>

text \<open>
  C8. Two profiles are selected and both keys are created. Whatever the two calls of
  \<^verbatim>\<open>replaceCrendentials\<close> do, the loop handles both profiles, both entries are pushed onto
  \<^verbatim>\<open>rotated\<close>, both old keys are deleted, both profiles are reported when \<^verbatim>\<open>-o\<close> is set,
  and the run ends with \<^verbatim>\<open>Complete\<close>. A replacement that fails adds exactly one
  \<^verbatim>\<open>Failed replacing credentials\<close> log entry in its place; one that succeeds adds the write.
\<close>

theorem failed_replacement_is_still_rotated:
  assumes sel: "select_for_rotation (default_env a) (emit [Intro] w) = (Inr [p1, p2], w1)"
    and c1: "create_reply w (created w) = CreateOk i1 s1"
    and c2: "create_reply w (Suc (created w)) = CreateOk i2 s2"
    and del: "\<not> delete_fails w (accessKeyId p1)" "\<not> delete_fails w (accessKeyId p2)"
  shows "\<exists>es1 es2 f.
     run a w =
       (Returned,
        emit ([SpinnerStart True, CreateAccessKey, ReadCredentials] @ es1 @
              [CreateAccessKey, ReadCredentials] @ es2 @
              [SpinnerStop 2 True, DeleteAccessKey (accessKeyId p1), DeleteAccessKey (accessKeyId p2)] @
              (if opt_output a then [note_of (name p1, i1, s1), note_of (name p2, i2, s2)] else []) @
              [Outro ''Complete''])
          (w1\<lparr>created := Suc (Suc (created w)), cred_file := f\<rparr>)) \<and>
     (\<forall>err. fst (replaceCrendentials (name p1) i1 s1 (EnvFlag False) w) = Inl err \<longrightarrow>
        es1 = [LogError ''Failed replacing credentials'' (Some err)]) \<and>
     (\<forall>err. fst (replaceCrendentials (name p2) i2 s2 (EnvFlag False) w) = Inl err \<longrightarrow>
        es2 = [LogError ''Failed replacing credentials'' (Some err)]) \<and>
     (fst (replaceCrendentials (name p1) i1 s1 (EnvFlag False) w) = Inr () \<longrightarrow>
        (\<exists>x. es1 = [WriteCredentials x])) \<and>
     (fst (replaceCrendentials (name p2) i2 s2 (EnvFlag False) w) = Inr () \<longrightarrow>
        (\<exists>x. es2 = [WriteCredentials x]))"
proof -
  let ?env = "opt_env (default_env a)"
  from selected_world [OF sel] obtain es where w1: "w1 = emit (Intro # es) w" by blast
  define ws where "ws = emit [SpinnerStart True] w1"
  have cs: "create_reply ws (created ws) = CreateOk i1 s1"
    using c1 by (simp add: ws_def w1)
  from rotate_one_of_several [OF cs, of "Suc (Suc 0)" ?env p1] obtain es1 f1 where
    one: "rotate_one ?env (Suc (Suc 0)) p1 ws =
       (Inr (name p1, i1, s1),
        emit (CreateAccessKey # ReadCredentials # es1)
          (ws\<lparr>created := Suc (created ws), cred_file := f1\<rparr>))"
    and f1: "f1 = None \<longleftrightarrow> cred_file ws = None"
    and l1: "\<forall>err. fst (replaceCrendentials (name p1) i1 s1 (EnvFlag False) ws) = Inl err \<longrightarrow>
        es1 = [LogError ''Failed replacing credentials'' (Some err)]"
      "fst (replaceCrendentials (name p1) i1 s1 (EnvFlag False) ws) = Inr () \<longrightarrow>
        (\<exists>x. es1 = [WriteCredentials x])"
    by auto
  define wa where "wa = emit (CreateAccessKey # ReadCredentials # es1)
          (ws\<lparr>created := Suc (created ws), cred_file := f1\<rparr>)"
  have ca: "create_reply wa (created wa) = CreateOk i2 s2"
    using c2 by (simp add: wa_def ws_def w1)
  from rotate_one_of_several [OF ca, of "Suc (Suc 0)" ?env p2] obtain es2 f2 where
    two: "rotate_one ?env (Suc (Suc 0)) p2 wa =
       (Inr (name p2, i2, s2),
        emit (CreateAccessKey # ReadCredentials # es2)
          (wa\<lparr>created := Suc (created wa), cred_file := f2\<rparr>))"
    and l2: "\<forall>err. fst (replaceCrendentials (name p2) i2 s2 (EnvFlag False) wa) = Inl err \<longrightarrow>
        es2 = [LogError ''Failed replacing credentials'' (Some err)]"
      "fst (replaceCrendentials (name p2) i2 s2 (EnvFlag False) wa) = Inr () \<longrightarrow>
        (\<exists>x. es2 = [WriteCredentials x])"
    by auto
  have r1: "fst (replaceCrendentials (name p1) i1 s1 (EnvFlag False) ws) =
      fst (replaceCrendentials (name p1) i1 s1 (EnvFlag False) w)"
    by (rule replaceCrendentials_result_readable) (simp_all add: ws_def w1)
  have r2: "fst (replaceCrendentials (name p2) i2 s2 (EnvFlag False) wa) =
      fst (replaceCrendentials (name p2) i2 s2 (EnvFlag False) w)"
    by (rule replaceCrendentials_result_readable) (use f1 in \<open>simp_all add: wa_def ws_def w1\<close>)
  have "run a w = rotate_selected (default_env a) [p1, p2] w1"
    by (rule run_unfold [OF sel])
  also have "\<dots> = (Returned,
        emit ([SpinnerStart True, CreateAccessKey, ReadCredentials] @ es1 @
              [CreateAccessKey, ReadCredentials] @ es2 @
              [SpinnerStop 2 True, DeleteAccessKey (accessKeyId p1), DeleteAccessKey (accessKeyId p2)] @
              (if opt_output a then [note_of (name p1, i1, s1), note_of (name p2, i2, s2)] else []) @
              [Outro ''Complete''])
          (w1\<lparr>created := Suc (Suc (created w)), cred_file := f2\<rparr>))"
    using one two del
    by (simp add: rotate_selected_rotates ws_def [symmetric] wa_def [symmetric] numeral_2_eq_2)
       (simp add: wa_def ws_def w1 emit_def)
  finally show ?thesis using l1 l2 unfolding r1 r2 by blast
qed

lemma two_headers: "match_all header_re 0 [] two_file = [''[a**]'', ''[b]'']"
  by (simp add: header_re_def line_terminator_def two_file_def)

lemma two_selected:
  "select_for_rotation (default_env with_profiles) (emit [Intro] two_world) =
     (Inr [star_profile, b_profile],
      emit [Intro, ReadCredentials, LoadProfile ''a**'', LoadProfile ''b'', ListAccessKeys] two_world)"
  by (simp add: select_for_rotation_def getAllCredentialProfiles_def getAllProfiles_def two_headers
      listAccessKeys_def two_world_def with_profiles_def default_env_def attach_date_def slice_1_m1_def
      creds.extend_def loaded.extend_def loaded.fields_def profile.fields_def
      star_profile_def b_profile_def emit_def del: match_all.simps)

lemma RegExp_star: "RegExp (credentials_pattern ''a**'') = SyntaxErr"
  by (simp add: RegExp_def credentials_pattern_def syntax_character_def cons_node_def)

lemma RegExp_b:
  "RegExp (credentials_pattern ''b'') =
     Compiled [Bol, One (Lit CHR ''[''), One (Lit CHR ''b''), One (Lit CHR '']''),
               Star Ws, Plus Dot, Star Ws, Plus Dot, Eol]"
  by (simp add: RegExp_def credentials_pattern_def syntax_character_def cons_node_def)

theorem failed_replacement_is_still_rotated_witness:
  "\<exists>x f. run with_profiles two_world =
     (Returned,
      emit [SpinnerStart True, CreateAccessKey, ReadCredentials,
            LogError ''Failed replacing credentials'' (Some RegExpSyntaxError),
            CreateAccessKey, ReadCredentials, WriteCredentials x,
            SpinnerStop 2 True, DeleteAccessKey ''K1'', DeleteAccessKey ''K2'', Outro ''Complete'']
        (emit [Intro, ReadCredentials, LoadProfile ''a**'', LoadProfile ''b'', ListAccessKeys] two_world
           \<lparr>created := Suc (Suc (created two_world)), cred_file := f\<rparr>))"
proof -
  have c1: "create_reply two_world (created two_world) = CreateOk ''N1'' ''T1''"
    and c2: "create_reply two_world (Suc (created two_world)) = CreateOk ''N2'' ''T2''"
    and del: "\<not> delete_fails two_world (accessKeyId star_profile)"
      "\<not> delete_fails two_world (accessKeyId b_profile)"
    by (simp_all add: two_world_def)
  have f1: "fst (replaceCrendentials (name star_profile) ''N1'' ''T1'' (EnvFlag False) two_world) =
      Inl RegExpSyntaxError"
    by (simp add: replaceCrendentials_def Let_def star_profile_def RegExp_star two_world_def)
  have f2: "fst (replaceCrendentials (name b_profile) ''N2'' ''T2'' (EnvFlag False) two_world) = Inr ()"
    by (simp add: replaceCrendentials_def Let_def b_profile_def RegExp_b two_world_def)
  have out: "\<not> opt_output with_profiles" by (simp add: with_profiles_def)
  have ids: "accessKeyId star_profile = ''K1''" "accessKeyId b_profile = ''K2''"
    by (simp_all add: star_profile_def b_profile_def)
  from failed_replacement_is_still_rotated [OF two_selected c1 c2 del] f1 f2 out
  obtain x f where "run with_profiles two_world =
     (Returned,
      emit [SpinnerStart True, CreateAccessKey, ReadCredentials,
            LogError ''Failed replacing credentials'' (Some RegExpSyntaxError),
            CreateAccessKey, ReadCredentials, WriteCredentials x,
            SpinnerStop 2 True, DeleteAccessKey ''K1'', DeleteAccessKey ''K2'', Outro ''Complete'']
        (emit [Intro, ReadCredentials, LoadProfile ''a**'', LoadProfile ''b'', ListAccessKeys] two_world
           \<lparr>created := Suc (Suc (created two_world)), cred_file := f\<rparr>))"
    by (auto simp: ids)
  then show ?thesis by (intro exI [of _ x] exI [of _ f])
qed

section \<open>When the env file is replaced (C5)\<close>



lemma rotate_one_static:
  "create_reply (snd (rotate_one env n p w)) = create_reply w"
  "cred_writable (snd (rotate_one env n p w)) = cred_writable w"
  "delete_fails (snd (rotate_one env n p w)) = delete_fails w"
proof -
  have "\<exists>es c f e. snd (rotate_one env n p w) = emit es (w\<lparr>created := c, cred_file := f, env_file := e\<rparr>)"
  proof (cases "fst (rotate_one env n p w)")
    case (Inl err)
    have "snd (rotate_one env n p w) =
        emit [CreateAccessKey] (w\<lparr>created := Suc (created w), cred_file := cred_file w, env_file := env_file w\<rparr>)"
      by (simp add: rotate_one_Inl [OF Inl])
    then show ?thesis by blast
  next
    case (Inr k)
    from rotate_one_shape [OF Inr] show ?thesis by blast
  qed
  then obtain es c f e where
    "snd (rotate_one env n p w) = emit es (w\<lparr>created := c, cred_file := f, env_file := e\<rparr>)"
    by blast
  then show "create_reply (snd (rotate_one env n p w)) = create_reply w"
    "cred_writable (snd (rotate_one env n p w)) = cred_writable w"
    "delete_fails (snd (rotate_one env n p w)) = delete_fails w"
    by simp_all
qed






section \<open>Profile names as patterns\<close>

lemma tokenize_single_literal:
  "\<not> syntax_character c \<Longrightarrow> tokenize [c] = [TAtom (Lit c)]"
  by (auto simp: syntax_character_def)

lemma tokenize_literal:
  "literal_name n \<Longrightarrow> tokenize (n @ rest) = map (TAtom \<circ> Lit) n @ tokenize rest"
proof (induction n)
  case Nil
  then show ?case by simp
next
  case (Cons c cs)
  then have c: "\<not> syntax_character c" and cs: "literal_name cs"
    by (simp_all add: literal_name_def)
  have nb: "c \<noteq> CHR 0x5C" using c by (auto simp: syntax_character_def)
  show ?case
  proof (cases "cs @ rest")
    case Nil
    then show ?thesis
      using tokenize_single_literal [OF c] by (simp del: tokenize.simps(2))
  next
    case (Cons e es)
    then have "tokenize (c # cs @ rest) = tokenize [c] @ tokenize (cs @ rest)"
      using nb by simp
    then show ?thesis
      using Cons.IH [OF cs] tokenize_single_literal [OF c] by (simp del: tokenize.simps)
  qed
qed

lemma build_literal:
  "build (TAtom b # ts) = Compiled rs \<Longrightarrow>
   build (map (TAtom \<circ> Lit) n @ TAtom b # ts) = Compiled (map (One \<circ> Lit) n @ rs)"
proof (induction n)
  case Nil
  then show ?case by simp
next
  case (Cons c cs)
  obtain t ts' where t: "map (TAtom \<circ> Lit) cs @ TAtom b # ts = TAtom t # ts'"
    by (cases cs) auto
  have "build (map (TAtom \<circ> Lit) (c # cs) @ TAtom b # ts) = build (TAtom (Lit c) # TAtom t # ts')"
    using t by simp
  also have "\<dots> = cons_node (One (Lit c)) (build (TAtom t # ts'))" by simp
  also have "\<dots> = cons_node (One (Lit c)) (Compiled (map (One \<circ> Lit) cs @ rs))"
    using Cons.IH [OF Cons.prems] unfolding t by (rule arg_cong)
  finally show ?case by (simp add: cons_node_def comp_def)
qed

lemma tokenize_tail:
  "tokenize ([CHR 0x5C] @ '']'' @ [CHR 0x5C] @ ''s*.+'' @ [CHR 0x5C] @ ''s*.+$'') =
     [TAtom (Lit (CHR '']'')), TAtom Ws, TStar, TAtom Dot, TPlus, TAtom Ws, TStar, TAtom Dot, TPlus, TEol]"
  by (simp add: syntax_character_def)

lemma RegExp_literal:
  assumes "literal_name n"
  shows "RegExp (credentials_pattern n) = Compiled (name_re n)"
proof -
  let ?tail = "[CHR 0x5C] @ '']'' @ [CHR 0x5C] @ ''s*.+'' @ [CHR 0x5C] @ ''s*.+$''"
  have pat: "credentials_pattern n = CHR ''^'' # CHR 0x5C # CHR ''['' # n @ ?tail"
    by (simp add: credentials_pattern_def)
  have "tokenize (credentials_pattern n) = TBol # TAtom (Lit (CHR ''['')) # tokenize (n @ ?tail)"
    unfolding pat by (simp add: syntax_character_def)
  also have "\<dots> = TBol # TAtom (Lit (CHR ''['')) # map (TAtom \<circ> Lit) n @
      TAtom (Lit (CHR '']'')) # [TAtom Ws, TStar, TAtom Dot, TPlus, TAtom Ws, TStar, TAtom Dot, TPlus, TEol]"
    unfolding tokenize_literal [OF assms] tokenize_tail by simp
  finally have tok: "tokenize (credentials_pattern n) =
      TBol # TAtom (Lit (CHR ''['')) # map (TAtom \<circ> Lit) n @
      TAtom (Lit (CHR '']'')) # [TAtom Ws, TStar, TAtom Dot, TPlus, TAtom Ws, TStar, TAtom Dot, TPlus, TEol]" .
  have tl: "build (TAtom (Lit (CHR '']'')) # [TAtom Ws, TStar, TAtom Dot, TPlus, TAtom Ws, TStar, TAtom Dot, TPlus, TEol])
      = Compiled (One (Lit (CHR '']'')) # tail_re)"
    by (simp add: cons_node_def tail_re_def)
  have "build (map (TAtom \<circ> Lit) (CHR ''['' # n) @
      TAtom (Lit (CHR '']'')) # [TAtom Ws, TStar, TAtom Dot, TPlus, TAtom Ws, TStar, TAtom Dot, TPlus, TEol])
      = Compiled (map (One \<circ> Lit) (CHR ''['' # n) @ One (Lit (CHR '']'')) # tail_re)"
    by (rule build_literal [OF tl])
  then show ?thesis
    unfolding RegExp_def tok by (simp add: cons_node_def name_re_def header_def)
qed

lemma matches_literal:
  "matches (map (One \<circ> Lit) n @ rs) prev s =
     (if prefix n s then matches rs (if n = [] then prev else Some (last n)) (drop (length n) s)
      else None)"
proof (induction n arbitrary: prev s)
  case Nil
  then show ?case by simp
next
  case (Cons c cs)
  show ?case
  proof (cases s)
    case Nil
    then show ?thesis by simp
  next
    case (Cons d ds)
    then show ?thesis using Cons.IH [of "Some d" ds] by auto
  qed
qed

lemma matches_name_re:
  "matches (name_re n) prev s =
     (if (case prev of None \<Rightarrow> True | Some p \<Rightarrow> line_terminator p) \<and> prefix (header n) s
      then matches tail_re (Some (CHR '']'')) (drop (length (header n)) s)
      else None)"
proof -
  have h: "header n \<noteq> []" "last (header n) = CHR '']''"
    by (simp_all add: header_def)
  show ?thesis
    unfolding name_re_def matches.simps(2) matches_literal using h by simp
qed



lemma header_not_Nil: "header n \<noteq> []"
  by (simp add: header_def)

lemma search_unfold:
  "search re passed s =
     (case matches re (case passed of [] \<Rightarrow> None | p # _ \<Rightarrow> Some p) s of
        Some rest \<Rightarrow> Some (rev passed, take (length s - length rest) s, rest)
      | None \<Rightarrow> (case s of [] \<Rightarrow> None | c # cs \<Rightarrow> search re (c # passed) cs))"
  by (rule search.simps)

lemma matches_name_re_None:
  "\<not> ((case passed of [] \<Rightarrow> True | p # _ \<Rightarrow> line_terminator p) \<and> prefix (header n) s) \<Longrightarrow>
   matches (name_re n) (case passed of [] \<Rightarrow> None | p # _ \<Rightarrow> Some p) s = None"
  unfolding matches_name_re by (cases passed) auto

lemma search_name_re_None:
  "\<not> has_header_line (header n) (case passed of [] \<Rightarrow> True | p # _ \<Rightarrow> line_terminator p) s \<Longrightarrow>
   search (name_re n) passed s = None"
proof (induction s arbitrary: passed)
  case Nil
  have "matches (name_re n) (case passed of [] \<Rightarrow> None | p # _ \<Rightarrow> Some p) [] = None"
    by (rule matches_name_re_None) (simp add: header_not_Nil)
  then show ?case by (subst search_unfold) simp
next
  case (Cons c cs)
  from Cons.prems have here: "\<not> ((case passed of [] \<Rightarrow> True | p # _ \<Rightarrow> line_terminator p) \<and>
      prefix (header n) (c # cs))"
    and later: "\<not> has_header_line (header n) (line_terminator c) cs"
    by simp_all
  have "search (name_re n) (c # passed) cs = None"
    by (rule Cons.IH) (simp add: later)
  then show ?case
    by (subst search_unfold) (simp add: matches_name_re_None [OF here])
qed


section \<open>A profile without a section (C2)\<close>

lemma replace_unmatched:
  "search re [] text = None \<Longrightarrow> replace text re replacement = text"
  by (simp add: replace_def)

lemma replaceEnv_keeps_credentials:
  "cred_file (replaceEnv p i s w) = cred_file w"
  "\<exists>es. trace (replaceEnv p i s w) = trace w @ es"
proof -
  from replaceEnv_shape [of p i s w] obtain rp es e where
    "replaceEnv p i s w = emit (ReadEnv rp # es) (w\<lparr>env_file := e\<rparr>)" by blast
  then show "cred_file (replaceEnv p i s w) = cred_file w"
    "\<exists>es. trace (replaceEnv p i s w) = trace w @ es" by simp_all
qed

text \<open>
  C2, as amended. The file can be read and written, the profile name has no regex
  metacharacter and no line of the file starts with its header. Then
  \<^verbatim>\<open>replaceCrendentials\<close> writes the file back with the content it had, inserting nothing,
  and returns normally: it signals no error.
\<close>

theorem absent_profile_is_silent:
  assumes lit: "literal_name n"
    and absent: "\<not> has_header_line (header n) True f"
    and cred: "cred_file w = Some f" "cred_writable w"
  shows "fst (replaceCrendentials n i s env w) = Inr () \<and>
    cred_file (snd (replaceCrendentials n i s env w)) = Some f \<and>
    WriteCredentials f \<in> set (trace (snd (replaceCrendentials n i s env w)))"
proof -
  have "search (name_re n) [] f = None"
    by (rule search_name_re_None) (simp add: absent)
  then have same: "replace f (name_re n) (newDefaultProfile n i s) = f"
    by (rule replace_unmatched)
  from replaceCrendentials_succeeds [OF cred RegExp_literal [OF lit], of i s env]
  have ok: "fst (replaceCrendentials n i s env w) = Inr ()" .
  from replaceCrendentials_ok_world [OF ok] cred RegExp_literal [OF lit] same
  have w': "snd (replaceCrendentials n i s env w) =
       (case env of EnvPath p \<Rightarrow> replaceEnv p i s | _ \<Rightarrow> (\<lambda>w. w))
         (emit [ReadCredentials, WriteCredentials f] (w\<lparr>cred_file := Some f\<rparr>))"
    by simp
  let ?w2 = "emit [ReadCredentials, WriteCredentials f] (w\<lparr>cred_file := Some f\<rparr>)"
  have "cred_file (snd (replaceCrendentials n i s env w)) = Some f"
    unfolding w' by (cases env) (simp_all add: replaceEnv_keeps_credentials)
  moreover have "WriteCredentials f \<in> set (trace (snd (replaceCrendentials n i s env w)))"
  proof (cases "\<exists>p. env = EnvPath p")
    case True
    then obtain p where p: "env = EnvPath p" by blast
    from replaceEnv_keeps_credentials(2) [of p i s ?w2] obtain es where
      "trace (replaceEnv p i s ?w2) = trace ?w2 @ es" by blast
    then show ?thesis using w' p by simp
  next
    case False
    then have "snd (replaceCrendentials n i s env w) = ?w2"
      unfolding w' by (cases env) simp_all
    then show ?thesis by simp
  qed
  ultimately show ?thesis using ok by simp
qed

lemma other_absent: "\<not> has_header_line (header ''other'') True default_file"
  by (simp add: header_def default_file_def line_terminator_def)

theorem absent_profile_is_silent_witness:
  "fst (replaceCrendentials ''other'' ''K'' ''S'' (EnvFlag False) default_world) = Inr () \<and>
   cred_file (snd (replaceCrendentials ''other'' ''K'' ''S'' (EnvFlag False) default_world)) =
     Some default_file"
proof -
  have lit: "literal_name ''other''"
    by (simp add: literal_name_def syntax_character_def)
  have cred: "cred_file default_world = Some default_file" "cred_writable default_world"
    by (simp_all add: default_world_def)
  from absent_profile_is_silent [OF lit other_absent cred] show ?thesis by blast
qed

lemma RegExp_other:
  "RegExp (credentials_pattern ''other'') =
     Compiled [Bol, One (Lit CHR ''[''), One (Lit CHR ''o''), One (Lit CHR ''t''),
               One (Lit CHR ''h''), One (Lit CHR ''e''), One (Lit CHR ''r''), One (Lit CHR '']''),
               Star Ws, Plus Dot, Star Ws, Plus Dot, Eol]"
  by (simp add: RegExp_def credentials_pattern_def syntax_character_def cons_node_def)

text \<open>
  C2 as stated fails: for a profile that the file does not contain the call returns
  normally; the program has no \<^verbatim>\<open>NotFoundError\<close>.
\<close>

theorem absent_profile_signals_nothing:
  "\<not> has_header_line (header ''other'') True default_file \<and>
   cred_file default_world = Some default_file \<and>
   fst (replaceCrendentials ''other'' ''K'' ''S'' (EnvFlag False) default_world) = Inr ()"
  by (simp add: other_absent replaceCrendentials_def Let_def RegExp_other default_world_def)

section \<open>A profile name with a dot, evaluated\<close>

lemma RegExp_dotted: "RegExp (credentials_pattern ''a.b'') = Compiled dot_re"
  by (simp add: RegExp_def credentials_pattern_def syntax_character_def cons_node_def dot_re_def)

lemma search_dotted:
  "search dot_re [] dot_file =
     Some ([], ''[axb]\<newline>aws_access_key_id=AKIA1\<newline>aws_secret_access_key=SEC1'',
           ''\<newline>[a.b]\<newline>aws_access_key_id=AKIA2\<newline>aws_secret_access_key=SEC2'')"
  by (simp add: dot_re_def dot_file_def line_terminator_def white_space_def)

lemma replace_dotted:
  "replace dot_file dot_re (newDefaultProfile ''a.b'' ''AKIANEW'' ''SECNEW'') =
     ''[a.b]\<newline>aws_access_key_id=AKIANEW\<newline>aws_secret_access_key=SECNEW\<newline>[a.b]\<newline>aws_access_key_id=AKIA2\<newline>aws_secret_access_key=SEC2''"
  unfolding replace_def search_dotted by (simp add: newDefaultProfile_def)

lemma replaceCrendentials_dotted:
  "replaceCrendentials ''a.b'' ''AKIANEW'' ''SECNEW'' (EnvFlag False) dot_world =
     (Inr (),
      emit [ReadCredentials,
            WriteCredentials ''[a.b]\<newline>aws_access_key_id=AKIANEW\<newline>aws_secret_access_key=SECNEW\<newline>[a.b]\<newline>aws_access_key_id=AKIA2\<newline>aws_secret_access_key=SEC2'']
        (dot_world\<lparr>cred_file := Some ''[a.b]\<newline>aws_access_key_id=AKIANEW\<newline>aws_secret_access_key=SECNEW\<newline>[a.b]\<newline>aws_access_key_id=AKIA2\<newline>aws_secret_access_key=SEC2''\<rparr>))"
proof -
  have "cred_file dot_world = Some dot_file" "cred_writable dot_world"
    by (simp_all add: dot_world_def default_world_def)
  then show ?thesis
    by (simp add: replaceCrendentials_def Let_def RegExp_dotted replace_dotted)
qed

section \<open>The profile name is spliced into the pattern unescaped (C10)\<close>




section \<open>Replacing the block of a profile (C1)\<close>

text \<open>
  C1 fails on the program. The credentials file holds a section \<^verbatim>\<open>[axb]\<close> and, after it,
  a well-formed section \<^verbatim>\<open>[a.b]\<close>. \<^verbatim>\<open>replaceCrendentials\<close> for the profile \<^verbatim>\<open>a.b\<close> returns
  normally, overwrites the block of the other profile \<^verbatim>\<open>axb\<close> (header and both keys) and
  leaves the block of \<^verbatim>\<open>a.b\<close> with its old keys.
\<close>

theorem dotted_profile_overwrites_other_section:
  "cred_file dot_world =
     Some ''[axb]\<newline>aws_access_key_id=AKIA1\<newline>aws_secret_access_key=SEC1\<newline>[a.b]\<newline>aws_access_key_id=AKIA2\<newline>aws_secret_access_key=SEC2'' \<and>
   fst (replaceCrendentials ''a.b'' ''AKIANEW'' ''SECNEW'' (EnvFlag False) dot_world) = Inr () \<and>
   cred_file (snd (replaceCrendentials ''a.b'' ''AKIANEW'' ''SECNEW'' (EnvFlag False) dot_world)) =
     Some ''[a.b]\<newline>aws_access_key_id=AKIANEW\<newline>aws_secret_access_key=SECNEW\<newline>[a.b]\<newline>aws_access_key_id=AKIA2\<newline>aws_secret_access_key=SEC2''"
  by (simp add: replaceCrendentials_dotted) (simp add: dot_world_def dot_file_def)

subsection \<open>What holds for a literal name\<close>

lemma eol_here:
  "post = [] \<or> line_terminator (hd post) \<Longrightarrow> matches [Eol] q post = Some post"
  by (cases post) auto

lemma star_dot_greedy:
  assumes "\<forall>c \<in> set l. \<not> line_terminator c"
    and "t = [] \<or> line_terminator (hd t)"
    and "\<And>q. matches rs q t = Some r"
  shows "matches (Star Dot # rs) p (l @ t) = Some r"
  using assms(1)
proof (induction l arbitrary: p)
  case Nil
  show ?case using assms(2,3) by (cases t) auto
next
  case (Cons c cs)
  then show ?case by simp
qed

lemma plus_dot_line:
  assumes "l \<noteq> []" "\<forall>c \<in> set l. \<not> line_terminator c"
    and "t = [] \<or> line_terminator (hd t)"
    and "\<And>q. matches rs q t = Some r"
  shows "matches (Plus Dot # rs) p (l @ t) = Some r"
proof -
  from assms(1) obtain c cs where l: "l = c # cs" by (cases l) auto
  have "matches (Star Dot # rs) (Some c) (cs @ t) = Some r"
    by (rule star_dot_greedy) (use assms l in auto)
  then show ?thesis using assms(2) l by simp
qed

lemma star_ws_newline:
  assumes "l \<noteq> []" "\<not> white_space (hd l)"
    and "\<And>q. matches rs q (l @ t) = Some r"
  shows "matches (Star Ws # rs) p (CHR 0x0A # l @ t) = Some r"
proof -
  from assms(1) obtain c cs where l: "l = c # cs" by (cases l) auto
  have "matches (Star Ws # rs) (Some (CHR 0x0A)) (l @ t) = matches rs (Some (CHR 0x0A)) (l @ t)"
    using assms(2) l by simp
  then have "matches (Star Ws # rs) (Some (CHR 0x0A)) (l @ t) = Some r"
    using assms(3) by simp
  then show ?thesis by (simp add: white_space_def)
qed

lemma matches_tail_block:
  assumes l1: "l1 \<noteq> []" "\<not> white_space (hd l1)" "\<forall>c \<in> set l1. \<not> line_terminator c"
    and l2: "l2 \<noteq> []" "\<not> white_space (hd l2)" "\<forall>c \<in> set l2. \<not> line_terminator c"
    and post: "post = [] \<or> line_terminator (hd post)"
  shows "matches tail_re q (CHR 0x0A # l1 @ CHR 0x0A # l2 @ post) = Some post"
proof -
  have b: "matches [Plus Dot, Eol] q (l2 @ post) = Some post" for q
    by (rule plus_dot_line [OF l2(1) l2(3) post]) (rule eol_here [OF post])
  have c: "matches [Star Ws, Plus Dot, Eol] q (CHR 0x0A # l2 @ post) = Some post" for q
    by (rule star_ws_newline [OF l2(1) l2(2)]) (rule b)
  have d: "matches [Plus Dot, Star Ws, Plus Dot, Eol] q (l1 @ CHR 0x0A # l2 @ post) = Some post" for q
    by (rule plus_dot_line [OF l1(1) l1(3) _ c]) (simp add: line_terminator_def)
  show ?thesis
    unfolding tail_re_def by (rule star_ws_newline [OF l1(1) l1(2)]) (rule d)
qed

lemma search_name_re_skip:
  assumes nolt: "\<forall>c \<in> set (header n). \<not> line_terminator c"
  shows "\<not> has_header_line (header n) (case passed of [] \<Rightarrow> True | p # _ \<Rightarrow> line_terminator p) u \<Longrightarrow>
    u = [] \<or> line_terminator (last u) \<Longrightarrow>
    search (name_re n) passed (u @ t) = search (name_re n) (rev u @ passed) t"
proof (induction u arbitrary: passed)
  case Nil
  then show ?case by simp
next
  case (Cons c cs)
  let ?bol = "case passed of [] \<Rightarrow> True | p # _ \<Rightarrow> line_terminator p"
  from Cons.prems(1) have here: "\<not> (?bol \<and> prefix (header n) (c # cs))"
    and later: "\<not> has_header_line (header n) (line_terminator c) cs"
    by simp_all
  from Cons.prems(2) have last: "line_terminator (last (c # cs))" by simp
  have "\<not> prefix (header n) ((c # cs) @ t)" if "\<not> prefix (header n) (c # cs)"
  proof
    assume p: "prefix (header n) ((c # cs) @ t)"
    from p have "prefix (header n) (c # cs) \<or> (\<exists>us. header n = (c # cs) @ us \<and> prefix us t)"
      by (rule prefix_append [THEN iffD1])
    with that obtain us where "header n = (c # cs) @ us" by blast
    then have "last (c # cs) \<in> set (header n)"
      by (metis last_in_set list.distinct(1) set_append UnI1)
    then show False using nolt last by blast
  qed
  then have "\<not> (?bol \<and> prefix (header n) (c # cs @ t))"
    using here by auto
  from matches_name_re_None [OF this]
  have step: "search (name_re n) passed ((c # cs) @ t) = search (name_re n) (c # passed) (cs @ t)"
    by (subst search_unfold) simp
  have "cs = [] \<or> line_terminator (List.last cs)"
    using last by (cases cs) auto
  from Cons.IH [of "c # passed", OF _ this] later
  have "search (name_re n) (c # passed) (cs @ t) = search (name_re n) (rev cs @ c # passed) t"
    by simp
  then show ?case unfolding step by simp
qed

lemma GetSubstitution_plain:
  "CHR ''$'' \<notin> set r \<Longrightarrow> GetSubstitution r pre mt post = r"
  by (induction r pre mt post rule: GetSubstitution.induct) auto

lemma replace_own_block:
  assumes lit: "literal_name n" and nolt: "\<forall>c \<in> set n. \<not> line_terminator c"
    and pre: "\<not> has_header_line (header n) True pre" "pre = [] \<or> line_terminator (last pre)"
    and l1: "l1 \<noteq> []" "\<not> white_space (hd l1)" "\<forall>c \<in> set l1. \<not> line_terminator c"
    and l2: "l2 \<noteq> []" "\<not> white_space (hd l2)" "\<forall>c \<in> set l2. \<not> line_terminator c"
    and post: "post = [] \<or> line_terminator (hd post)"
    and plain: "CHR ''$'' \<notin> set i" "CHR ''$'' \<notin> set s"
  shows "replace (pre @ header n @ CHR 0x0A # l1 @ CHR 0x0A # l2 @ post) (name_re n)
           (newDefaultProfile n i s) =
         pre @ newDefaultProfile n i s @ post"
proof -
  let ?block = "header n @ CHR 0x0A # l1 @ CHR 0x0A # l2"
  have hl: "\<forall>c \<in> set (header n). \<not> line_terminator c"
    using nolt by (auto simp: header_def line_terminator_def)
  have skip: "search (name_re n) [] (pre @ ?block @ post) = search (name_re n) (rev pre) (?block @ post)"
    using search_name_re_skip [OF hl, of "[]" pre "?block @ post"] pre by simp
  have bol: "case rev pre of [] \<Rightarrow> True | p # _ \<Rightarrow> line_terminator p"
    using pre(2) by (cases pre rule: rev_cases) auto
  have "matches (name_re n) (case rev pre of [] \<Rightarrow> None | p # _ \<Rightarrow> Some p) (?block @ post) =
      matches tail_re (Some (CHR '']'')) (CHR 0x0A # l1 @ CHR 0x0A # l2 @ post)"
    unfolding matches_name_re using bol by (cases "rev pre") auto
  also have "\<dots> = Some post" by (rule matches_tail_block [OF l1 l2 post])
  finally have "search (name_re n) (rev pre) (?block @ post) =
      Some (rev (rev pre), take (length (?block @ post) - length post) (?block @ post), post)"
    by (subst search_unfold) simp
  then have found: "search (name_re n) [] (pre @ ?block @ post) = Some (pre, ?block, post)"
    using skip by simp
  have "CHR ''$'' \<notin> set n"
    using lit by (auto simp: literal_name_def syntax_character_def)
  then have "CHR ''$'' \<notin> set (newDefaultProfile n i s)"
    using plain by (auto simp: newDefaultProfile_def)
  then have "GetSubstitution (newDefaultProfile n i s) pre ?block post = newDefaultProfile n i s"
    by (rule GetSubstitution_plain)
  then show ?thesis
    using found by (simp add: replace_def)
qed

text \<open>
  For a profile name without regex metacharacters and line terminators, a new id and
  secret without \<^verbatim>\<open>$\<close>, and a file in which the well-formed block of the profile is the first
  line starting with its header, the block is replaced by the new one and the text before
  and after it stays as it was.
\<close>

lemma literal_profile_replaces_own_block:
  assumes lit: "literal_name n" and nolt: "\<forall>c \<in> set n. \<not> line_terminator c"
    and pre: "\<not> has_header_line (header n) True pre" "pre = [] \<or> line_terminator (last pre)"
    and old: "\<forall>c \<in> set oldId. \<not> line_terminator c" "\<forall>c \<in> set oldSecret. \<not> line_terminator c"
    and post: "post = [] \<or> line_terminator (hd post)"
    and plain: "CHR ''$'' \<notin> set i" "CHR ''$'' \<notin> set s"
    and cred: "cred_file w = Some (pre @ newDefaultProfile n oldId oldSecret @ post)"
      "cred_writable w"
  shows "fst (replaceCrendentials n i s env w) = Inr () \<and>
    cred_file (snd (replaceCrendentials n i s env w)) = Some (pre @ newDefaultProfile n i s @ post)"
proof -
  let ?l1 = "''aws_access_key_id='' @ oldId" and ?l2 = "''aws_secret_access_key='' @ oldSecret"
  have block: "newDefaultProfile n oldId oldSecret = header n @ CHR 0x0A # ?l1 @ CHR 0x0A # ?l2"
    by (simp add: newDefaultProfile_def header_def)
  have l1: "?l1 \<noteq> []" "\<not> white_space (hd ?l1)" "\<forall>c \<in> set ?l1. \<not> line_terminator c"
    using old(1) by (auto simp: white_space_def line_terminator_def)
  have l2: "?l2 \<noteq> []" "\<not> white_space (hd ?l2)" "\<forall>c \<in> set ?l2. \<not> line_terminator c"
    using old(2) by (auto simp: white_space_def line_terminator_def)
  from replace_own_block [OF lit nolt pre l1 l2 post plain]
  have new: "replace (pre @ newDefaultProfile n oldId oldSecret @ post) (name_re n)
      (newDefaultProfile n i s) = pre @ newDefaultProfile n i s @ post"
    unfolding block by simp
  from replaceCrendentials_succeeds [OF cred RegExp_literal [OF lit], of i s env]
  have ok: "fst (replaceCrendentials n i s env w) = Inr ()" .
  from replaceCrendentials_ok_world [OF ok] cred RegExp_literal [OF lit] new
  have "snd (replaceCrendentials n i s env w) =
       (case env of EnvPath p \<Rightarrow> replaceEnv p i s | _ \<Rightarrow> (\<lambda>w. w))
         (emit [ReadCredentials, WriteCredentials (pre @ newDefaultProfile n i s @ post)]
            (w\<lparr>cred_file := Some (pre @ newDefaultProfile n i s @ post)\<rparr>))"
    by simp
  then have "cred_file (snd (replaceCrendentials n i s env w)) =
      Some (pre @ newDefaultProfile n i s @ post)"
    by (cases env) (simp_all add: replaceEnv_keeps_credentials)
  then show ?thesis using ok by simp
qed

end
